theory Spec2Isabelle
  imports Main
begin

section \<open>JavaScript values and the object store\<close>

text \<open>
  The operations of \<^verbatim>\<open>src/api/sprint.js\<close> read properties of the caller's options object,
  delete one of them in place, and hand objects on by reference. Objects therefore live in a
  store, and a value is a primitive or a reference into it.

  The objects of the model are plain data objects: their prototype is the unmodified
  \<^verbatim>\<open>Object.prototype\<close>, their properties are own data properties with string keys, and
  no property holds a function. A property has a value and the attribute
  \<^verbatim>\<open>configurable\<close>, which is false for the properties of a frozen or sealed object and for
  a property defined so with \<^verbatim>\<open>Object.defineProperty\<close>.

  \<open>Num\<close> stands for a number that is a safe integer (magnitude below \<open>2^53\<close>):
  these are the integers a JavaScript number holds exactly and prints as their decimal
  numeral. Other numbers, arrays, symbols and functions are outside the value type.
\<close>

typedef safeint = "{i :: int. \<bar>i\<bar> < 2 ^ 53}"
  morphisms intOf safeInt
  by (rule exI[of _ 0]) simp

type_synonym addr = nat

datatype jsval =
    Undefined
  | Null
  | Bool bool
  | Num safeint
  | Str string
  | Ref addr

datatype property = Property (propValue: jsval) (configurable: bool)

type_synonym jsobj = "string \<rightharpoonup> property"

text \<open>Every address holds an object; an address never written holds the empty object.\<close>

type_synonym heap = "addr \<Rightarrow> jsobj"

datatype js_error =
    TypeError
  | ClientThrew jsval

text \<open>
  A statement runs in a store and either throws, leaving the store as it was at the throw,
  or yields a value and the store after it.
\<close>

type_synonym 'a prog = "heap \<Rightarrow> (js_error \<times> heap) + ('a \<times> heap)"

definition returnP :: "'a \<Rightarrow> 'a prog" where
  "returnP x = (\<lambda>h. Inr (x, h))"

definition throwP :: "js_error \<Rightarrow> 'a prog" where
  "throwP e = (\<lambda>h. Inl (e, h))"

text \<open>Sequencing: the second statement runs in the store the first one left.\<close>

definition bindP :: "'a prog \<Rightarrow> ('a \<Rightarrow> heap \<Rightarrow> (js_error \<times> heap) + 'b)
    \<Rightarrow> heap \<Rightarrow> (js_error \<times> heap) + 'b" where
  "bindP m f = (\<lambda>h. case m h of Inl eh \<Rightarrow> Inl eh | Inr (x, h') \<Rightarrow> f x h')"

text \<open>
  \<^verbatim>\<open>v.k\<close>: reading a property of \<^verbatim>\<open>undefined\<close> or \<^verbatim>\<open>null\<close> throws a TypeError; an
  object yields its own property or \<^verbatim>\<open>undefined\<close>; a boolean, number or string yields
  \<^verbatim>\<open>undefined\<close>. The source reads only the keys \<^verbatim>\<open>sprintId\<close>, \<^verbatim>\<open>filter\<close>,
  \<^verbatim>\<open>startAt\<close>, \<^verbatim>\<open>maxResults\<close>, \<^verbatim>\<open>jql\<close>, \<^verbatim>\<open>validateQuery\<close>, \<^verbatim>\<open>fields\<close>,
  \<^verbatim>\<open>expand\<close>, \<^verbatim>\<open>suppliedOptions\<close> and \<^verbatim>\<open>body\<close>, none of which is inherited from
  the prototype of an object or of a primitive.
\<close>

definition propOf :: "heap \<Rightarrow> addr \<Rightarrow> string \<Rightarrow> jsval" where
  "propOf h a k = (case h a k of None \<Rightarrow> Undefined | Some p \<Rightarrow> propValue p)"

definition getProp :: "jsval \<Rightarrow> string \<Rightarrow> jsval prog" where
  "getProp v k = (case v of
       Undefined \<Rightarrow> throwP TypeError
     | Null \<Rightarrow> throwP TypeError
     | Ref a \<Rightarrow> (\<lambda>h. Inr (propOf h a k, h))
     | _ \<Rightarrow> returnP Undefined)"

text \<open>
  \<^verbatim>\<open>delete v.k\<close>. The source file is in strict mode (\<^verbatim>\<open>"use strict"\<close> is its first
  line): deleting an own property that is not configurable throws a TypeError and leaves the
  object as it is. Otherwise the property, if the object has it, is removed from the object
  in the store. On a boolean, number or string nothing changes; on \<^verbatim>\<open>undefined\<close> or
  \<^verbatim>\<open>null\<close> the property reference throws.
\<close>

definition deletable :: "heap \<Rightarrow> addr \<Rightarrow> string \<Rightarrow> bool" where
  "deletable h a k = (case h a k of None \<Rightarrow> True | Some p \<Rightarrow> configurable p)"

definition deleteProp :: "jsval \<Rightarrow> string \<Rightarrow> unit prog" where
  "deleteProp v k = (case v of
       Undefined \<Rightarrow> throwP TypeError
     | Null \<Rightarrow> throwP TypeError
     | Ref a \<Rightarrow> (\<lambda>h. if deletable h a k then Inr ((), h(a := (h a)(k := None)))
                      else Inl (TypeError, h))
     | _ \<Rightarrow> returnP ())"

subsection \<open>Conversion to text\<close>

text \<open>
  The decimal numeral of an integer. JavaScript prints a number that is a safe integer as
  this numeral; larger numbers it prints with rounded digits or with an exponent, which is
  why \<open>textOf\<close> below applies \<open>showInt\<close> to safe integers only.
\<close>

definition digitChar :: "nat \<Rightarrow> char" where
  "digitChar n = ''0123456789'' ! n"

function showNat :: "nat \<Rightarrow> string" where
  "showNat n = (if n < 10 then [digitChar n] else showNat (n div 10) @ [digitChar (n mod 10)])"
  by pat_completeness auto
termination
  by (relation "measure (\<lambda>n. n)") auto

declare showNat.simps [simp del]

definition showInt :: "int \<Rightarrow> string" where
  "showInt i = (if i < 0 then CHR ''-'' # showNat (nat (- i)) else showNat (nat i))"

text \<open>
  The text of a value as the operator \<^verbatim>\<open>+\<close> with a string operand produces it. A plain
  object is converted through \<^verbatim>\<open>valueOf\<close> and \<^verbatim>\<open>toString\<close>: the inherited
  \<^verbatim>\<open>valueOf\<close> returns the object itself, the inherited \<^verbatim>\<open>toString\<close> returns
  \<^verbatim>\<open>[object Object]\<close>, and an own data property named \<^verbatim>\<open>toString\<close> hides the
  inherited method without being callable, so the conversion throws a TypeError
  (\<open>None\<close> below).
\<close>

definition textOf :: "heap \<Rightarrow> jsval \<Rightarrow> string option" where
  "textOf h v = (case v of
       Undefined \<Rightarrow> Some ''undefined''
     | Null \<Rightarrow> Some ''null''
     | Bool b \<Rightarrow> Some (if b then ''true'' else ''false'')
     | Num n \<Rightarrow> Some (showInt (intOf n))
     | Str s \<Rightarrow> Some s
     | Ref a \<Rightarrow> (if ''toString'' \<in> dom (h a) then None else Some ''[object Object]''))"

definition toStr :: "jsval \<Rightarrow> string prog" where
  "toStr v = (\<lambda>h. case textOf h v of None \<Rightarrow> Inl (TypeError, h) | Some t \<Rightarrow> Inr (t, h))"

text \<open>\<^verbatim>\<open>s + v\<close> for a string \<open>s\<close>.\<close>

definition plusStr :: "string \<Rightarrow> jsval \<Rightarrow> string prog" where
  "plusStr s v = bindP (toStr v) (\<lambda>t. returnP (s @ t))"

section \<open>The request descriptor and the client\<close>

text \<open>
  The object literal \<^verbatim>\<open>options\<close> that each operation builds. It is a fresh object that
  only the transport receives, so it is a record held by value; \<open>qs\<close> and \<open>body\<close>
  are \<open>None\<close> where the literal has no such key. The query object is likewise a fresh
  literal, held as a map from the keys written in the literal to their values.
\<close>

type_synonym literal = "string \<rightharpoonup> jsval"

record request =
  uri :: string
  "method" :: string
  followAllRedirects :: bool
  json :: bool
  suppliedOptions :: jsval
  qs :: "literal option"
  body :: "jsval option"

text \<open>
  \<^verbatim>\<open>this.jiraClient\<close>. Its three methods are defined outside \<^verbatim>\<open>src/api/sprint.js\<close>, so
  they are parameters of every operation and every theorem holds for each client.
  \<open>parseOptions\<close> takes the options and the name given as second argument
  (\<open>Undefined\<close> where the call passes none) and returns the value bound to
  \<^verbatim>\<open>result\<close>. \<open>buildAgileURL\<close> maps a relative path to the endpoint URL.
  \<open>makeRequest\<close> receives the descriptor, the callback (\<open>None\<close> where the caller
  passed none) and the store at the call; what it returns is the operation's return value.
\<close>

record ('cb, 'r) jiraClient =
  parseOptions :: "jsval \<Rightarrow> jsval \<Rightarrow> jsval prog"
  buildAgileURL :: "string \<Rightarrow> string"
  makeRequest :: "request \<Rightarrow> 'cb option \<Rightarrow> heap \<Rightarrow> 'r"

section \<open>The operations of AgileSprintClient\<close>

text \<open>
  One definition for each method of \<^verbatim>\<open>src/api/sprint.js\<close>, statement by statement and
  in the order of evaluation: every property read is one \<open>getProp\<close>, also where the
  source reads \<^verbatim>\<open>result.body\<close> again; the fields of the object literal are evaluated
  in the order they are written, the url first; the last statement calls
  \<^verbatim>\<open>makeRequest(options, callback)\<close> in the store reached by then and returns what it
  returns. \<open>Inl\<close> is an exception thrown before that call, with the store at the throw.
\<close>

definition createSprint ::
    "('cb, 'r) jiraClient \<Rightarrow> jsval \<Rightarrow> 'cb option \<Rightarrow> heap \<Rightarrow> (js_error \<times> heap) + 'r" where
  "createSprint this opts callback =
     bindP (parseOptions this opts Undefined) (\<lambda>result.
     bindP (getProp result ''suppliedOptions'') (\<lambda>supplied.
     bindP (getProp result ''body'') (\<lambda>resultBody.
       (\<lambda>h. Inr (makeRequest this
         \<lparr> uri = buildAgileURL this ''/sprint'', method = ''POST'',
           followAllRedirects = True,
           json = True,
           suppliedOptions = supplied,
           qs = None,
           body = Some resultBody \<rparr> callback h)))))"

definition getSprint ::
    "('cb, 'r) jiraClient \<Rightarrow> jsval \<Rightarrow> 'cb option \<Rightarrow> heap \<Rightarrow> (js_error \<times> heap) + 'r" where
  "getSprint this opts callback =
     bindP (getProp opts ''sprintId'') (\<lambda>sprintId.
     bindP (plusStr ''/sprint/'' sprintId) (\<lambda>path.
     bindP (getProp opts ''filter'') (\<lambda>filter.
     bindP (getProp opts ''startAt'') (\<lambda>startAt.
     bindP (getProp opts ''maxResults'') (\<lambda>maxResults.
       (\<lambda>h. Inr (makeRequest this
         \<lparr> uri = buildAgileURL this path, method = ''GET'',
           followAllRedirects = True,
           json = True,
           suppliedOptions = opts,
           qs = Some [''filter'' \<mapsto> filter, ''startAt'' \<mapsto> startAt,
                      ''maxResults'' \<mapsto> maxResults],
           body = None \<rparr> callback h)))))))"

definition updateSprint ::
    "('cb, 'r) jiraClient \<Rightarrow> jsval \<Rightarrow> 'cb option \<Rightarrow> heap \<Rightarrow> (js_error \<times> heap) + 'r" where
  "updateSprint this opts callback =
     bindP (parseOptions this opts (Str ''sprint'')) (\<lambda>result.
     bindP (getProp result ''body'') (\<lambda>body0.
     bindP (getProp body0 ''sprintId'') (\<lambda>sprintId.
     bindP (getProp result ''body'') (\<lambda>body1.
     bindP (deleteProp body1 ''sprintId'') (\<lambda>_.
     bindP (plusStr ''/sprint/'' sprintId) (\<lambda>path.
     bindP (getProp result ''suppliedOptions'') (\<lambda>supplied.
     bindP (getProp result ''body'') (\<lambda>resultBody.
       (\<lambda>h. Inr (makeRequest this
         \<lparr> uri = buildAgileURL this path, method = ''PUT'',
           followAllRedirects = True,
           json = True,
           suppliedOptions = supplied,
           qs = None,
           body = Some resultBody \<rparr> callback h))))))))))"

definition partiallyUpdateSprint ::
    "('cb, 'r) jiraClient \<Rightarrow> jsval \<Rightarrow> 'cb option \<Rightarrow> heap \<Rightarrow> (js_error \<times> heap) + 'r" where
  "partiallyUpdateSprint this opts callback =
     bindP (parseOptions this opts (Str ''sprint'')) (\<lambda>result.
     bindP (getProp result ''body'') (\<lambda>body0.
     bindP (getProp body0 ''sprintId'') (\<lambda>sprintId.
     bindP (getProp result ''body'') (\<lambda>body1.
     bindP (deleteProp body1 ''sprintId'') (\<lambda>_.
     bindP (plusStr ''/sprint/'' sprintId) (\<lambda>path.
     bindP (getProp result ''suppliedOptions'') (\<lambda>supplied.
     bindP (getProp result ''body'') (\<lambda>resultBody.
       (\<lambda>h. Inr (makeRequest this
         \<lparr> uri = buildAgileURL this path, method = ''POST'',
           followAllRedirects = True,
           json = True,
           suppliedOptions = supplied,
           qs = None,
           body = Some resultBody \<rparr> callback h))))))))))"

definition deleteSprint ::
    "('cb, 'r) jiraClient \<Rightarrow> jsval \<Rightarrow> 'cb option \<Rightarrow> heap \<Rightarrow> (js_error \<times> heap) + 'r" where
  "deleteSprint this opts callback =
     bindP (getProp opts ''sprintId'') (\<lambda>sprintId.
     bindP (plusStr ''/sprint/'' sprintId) (\<lambda>path.
     bindP (getProp opts ''filter'') (\<lambda>filter.
     bindP (getProp opts ''startAt'') (\<lambda>startAt.
     bindP (getProp opts ''maxResults'') (\<lambda>maxResults.
       (\<lambda>h. Inr (makeRequest this
         \<lparr> uri = buildAgileURL this path, method = ''DELETE'',
           followAllRedirects = True,
           json = True,
           suppliedOptions = opts,
           qs = Some [''filter'' \<mapsto> filter, ''startAt'' \<mapsto> startAt,
                      ''maxResults'' \<mapsto> maxResults],
           body = None \<rparr> callback h)))))))"

definition getSprintIssues ::
    "('cb, 'r) jiraClient \<Rightarrow> jsval \<Rightarrow> 'cb option \<Rightarrow> heap \<Rightarrow> (js_error \<times> heap) + 'r" where
  "getSprintIssues this opts callback =
     bindP (getProp opts ''sprintId'') (\<lambda>sprintId.
     bindP (plusStr ''/sprint/'' sprintId) (\<lambda>path0.
     bindP (getProp opts ''startAt'') (\<lambda>startAt.
     bindP (getProp opts ''maxResults'') (\<lambda>maxResults.
     bindP (getProp opts ''jql'') (\<lambda>jql.
     bindP (getProp opts ''validateQuery'') (\<lambda>validateQuery.
     bindP (getProp opts ''fields'') (\<lambda>fields.
     bindP (getProp opts ''expand'') (\<lambda>expand.
       (\<lambda>h. Inr (makeRequest this
         \<lparr> uri = buildAgileURL this (path0 @ ''/issue''), method = ''GET'',
           followAllRedirects = True,
           json = True,
           suppliedOptions = opts,
           qs = Some [''startAt'' \<mapsto> startAt, ''maxResults'' \<mapsto> maxResults,
                      ''jql'' \<mapsto> jql, ''validateQuery'' \<mapsto> validateQuery,
                      ''fields'' \<mapsto> fields, ''expand'' \<mapsto> expand],
           body = None \<rparr> callback h))))))))))"

definition moveSprintIssues ::
    "('cb, 'r) jiraClient \<Rightarrow> jsval \<Rightarrow> 'cb option \<Rightarrow> heap \<Rightarrow> (js_error \<times> heap) + 'r" where
  "moveSprintIssues this opts callback =
     bindP (getProp opts ''sprintId'') (\<lambda>sprintId.
     bindP (deleteProp opts ''sprintId'') (\<lambda>_.
     bindP (plusStr ''/sprint/'' sprintId) (\<lambda>path0.
       (\<lambda>h. Inr (makeRequest this
         \<lparr> uri = buildAgileURL this (path0 @ ''/issue''), method = ''POST'',
           followAllRedirects = True,
           json = True,
           suppliedOptions = opts,
           qs = None,
           body = Some opts \<rparr> callback h)))))"

definition swapSprint ::
    "('cb, 'r) jiraClient \<Rightarrow> jsval \<Rightarrow> 'cb option \<Rightarrow> heap \<Rightarrow> (js_error \<times> heap) + 'r" where
  "swapSprint this opts callback =
     bindP (parseOptions this opts (Str ''swapped'')) (\<lambda>result.
     bindP (getProp result ''body'') (\<lambda>body0.
     bindP (getProp body0 ''sprintId'') (\<lambda>sprintId.
     bindP (getProp result ''body'') (\<lambda>body1.
     bindP (deleteProp body1 ''sprintId'') (\<lambda>_.
     bindP (plusStr ''/sprint/'' sprintId) (\<lambda>path0.
     bindP (getProp result ''suppliedOptions'') (\<lambda>supplied.
     bindP (getProp result ''body'') (\<lambda>resultBody.
       (\<lambda>h. Inr (makeRequest this
         \<lparr> uri = buildAgileURL this (path0 @ ''/swap''), method = ''POST'',
           followAllRedirects = True,
           json = True,
           suppliedOptions = supplied,
           qs = None,
           body = Some resultBody \<rparr> callback h))))))))))"

text \<open>
  The constructor: \<^verbatim>\<open>new AgileSprintClient(jiraClient)\<close> is the object holding the
  eight methods, each closed over the client.
\<close>

datatype sprintMethod =
    CreateSprint
  | GetSprint
  | UpdateSprint
  | PartiallyUpdateSprint
  | DeleteSprint
  | GetSprintIssues
  | MoveSprintIssues
  | SwapSprint

definition AgileSprintClient ::
    "('cb, 'r) jiraClient \<Rightarrow> sprintMethod \<Rightarrow> jsval \<Rightarrow> 'cb option \<Rightarrow> heap
      \<Rightarrow> (js_error \<times> heap) + 'r" where
  "AgileSprintClient jiraClient m = (case m of
       CreateSprint \<Rightarrow> createSprint jiraClient
     | GetSprint \<Rightarrow> getSprint jiraClient
     | UpdateSprint \<Rightarrow> updateSprint jiraClient
     | PartiallyUpdateSprint \<Rightarrow> partiallyUpdateSprint jiraClient
     | DeleteSprint \<Rightarrow> deleteSprint jiraClient
     | GetSprintIssues \<Rightarrow> getSprintIssues jiraClient
     | MoveSprintIssues \<Rightarrow> moveSprintIssues jiraClient
     | SwapSprint \<Rightarrow> swapSprint jiraClient)"

text \<open>The second argument each operation passes to \<^verbatim>\<open>parseOptions\<close>, where it calls it.\<close>

definition parseName :: "sprintMethod \<Rightarrow> jsval" where
  "parseName m = (case m of
       CreateSprint \<Rightarrow> Undefined
     | SwapSprint \<Rightarrow> Str ''swapped''
     | _ \<Rightarrow> Str ''sprint'')"

section \<open>The contract the specification states\<close>

text \<open>
  The operation table of the specification (section 4.1), written down from its words so
  that the code can be compared with it: the relative path of each operation with the
  identifier's text \<open>t\<close> in the place of \<^verbatim>\<open>{id}\<close>, and the HTTP method.
\<close>

definition specPath :: "sprintMethod \<Rightarrow> string \<Rightarrow> string" where
  "specPath m t = (case m of
       CreateSprint \<Rightarrow> ''/sprint''
     | GetSprint \<Rightarrow> ''/sprint/'' @ t
     | UpdateSprint \<Rightarrow> ''/sprint/'' @ t
     | PartiallyUpdateSprint \<Rightarrow> ''/sprint/'' @ t
     | DeleteSprint \<Rightarrow> ''/sprint/'' @ t
     | GetSprintIssues \<Rightarrow> ''/sprint/'' @ t @ ''/issue''
     | MoveSprintIssues \<Rightarrow> ''/sprint/'' @ t @ ''/issue''
     | SwapSprint \<Rightarrow> ''/sprint/'' @ t @ ''/swap'')"

definition specMethod :: "sprintMethod \<Rightarrow> string" where
  "specMethod m = (case m of
       CreateSprint \<Rightarrow> ''POST''
     | GetSprint \<Rightarrow> ''GET''
     | UpdateSprint \<Rightarrow> ''PUT''
     | PartiallyUpdateSprint \<Rightarrow> ''POST''
     | DeleteSprint \<Rightarrow> ''DELETE''
     | GetSprintIssues \<Rightarrow> ''GET''
     | MoveSprintIssues \<Rightarrow> ''POST''
     | SwapSprint \<Rightarrow> ''POST'')"

text \<open>
  The sprint identifier of the specification's data model is a number or a string. Its
  verbatim text is the string itself, or the decimal numeral of the number. What a decimal
  numeral is, is said here by reading one, independently of the function that prints one:
  an optional minus sign and digits without a leading zero, read from the left; zero has no
  sign.
\<close>

definition digitValue :: "char \<Rightarrow> nat option" where
  "digitValue c = map_of (zip ''0123456789'' [0, 1, 2, 3, 4, 5, 6, 7, 8, 9]) c"

fun digitsValue :: "nat \<Rightarrow> string \<Rightarrow> nat option" where
  "digitsValue acc [] = Some acc"
| "digitsValue acc (c # cs) =
     (case digitValue c of None \<Rightarrow> None | Some d \<Rightarrow> digitsValue (10 * acc + d) cs)"

definition natNumeral :: "string \<Rightarrow> nat option" where
  "natNumeral s =
     (if s = [] \<or> (hd s = CHR ''0'' \<and> s \<noteq> ''0'') then None else digitsValue 0 s)"

definition decimalValue :: "string \<Rightarrow> int option" where
  "decimalValue s = (case s of
       [] \<Rightarrow> None
     | c # cs \<Rightarrow>
         if c = CHR ''-''
         then (case natNumeral cs of
                 None \<Rightarrow> None
               | Some n \<Rightarrow> if n = 0 then None else Some (- int n))
         else map_option int (natNumeral s))"

definition isIdentifierText :: "jsval \<Rightarrow> string \<Rightarrow> bool" where
  "isIdentifierText v t = (case v of
       Str s \<Rightarrow> t = s
     | Num n \<Rightarrow> decimalValue t = Some (intOf n)
     | _ \<Rightarrow> False)"

text \<open>A text without an unresolved placeholder: no brace is left in it.\<close>

definition placeholderFree :: "string \<Rightarrow> bool" where
  "placeholderFree s \<longleftrightarrow> CHR ''{'' \<notin> set s \<and> CHR ''}'' \<notin> set s"

text \<open>
  Modelled from the spec: the Transport behind \<^verbatim>\<open>makeRequest\<close> is not part of
  \<^verbatim>\<open>src/api/sprint.js\<close>. Its contract (section 6) is that it performs the call the
  descriptor describes once, settles the returned deferred with the outcome, and, if a
  callback is supplied, invokes it with an equivalent outcome. \<open>perform\<close> is the
  outcome of the network call; \<open>notified\<close> lists the callback invocations.
\<close>

record ('cb, 'o) dispatched =
  deferred :: 'o
  notified :: "('cb \<times> 'o) list"

definition transportExecute ::
    "(request \<Rightarrow> heap \<Rightarrow> 'o) \<Rightarrow> request \<Rightarrow> 'cb option \<Rightarrow> heap \<Rightarrow> ('cb, 'o) dispatched" where
  "transportExecute perform d callback h =
     (let outcome = perform d h
      in \<lparr> deferred = outcome,
           notified = (case callback of None \<Rightarrow> [] | Some c \<Rightarrow> [(c, outcome)]) \<rparr>)"

section \<open>A concrete client and store\<close>

text \<open>
  An object written as a list of keys and values, with every property configurable
  (\<open>plain\<close>, as an object literal makes it) or none (\<open>frozen\<close>, as
  \<^verbatim>\<open>Object.freeze\<close> leaves it).
\<close>

definition plain :: "(string \<times> jsval) list \<Rightarrow> jsobj" where
  "plain kvs = map_option (\<lambda>v. Property v True) \<circ> map_of kvs"

definition frozen :: "(string \<times> jsval) list \<Rightarrow> jsobj" where
  "frozen kvs = map_option (\<lambda>v. Property v False) \<circ> map_of kvs"

text \<open>
  The theorems below hold for every client. To run the operations on concrete inputs, this
  client resolves a path under a fixed base, returns from \<open>makeRequest\<close> exactly what it
  was called with, and parses options as the documented calls use them
  (\<^verbatim>\<open>updateSprint({data: {...}})\<close>): the payload is the \<^verbatim>\<open>data\<close> field, and the
  result object is written at address 0.
\<close>

definition exampleClient :: "(string, request \<times> string option \<times> heap) jiraClient" where
  "exampleClient =
     \<lparr> parseOptions = (\<lambda>opts name. bindP (getProp opts ''data'') (\<lambda>payload h.
          Inr (Ref 0, h(0 := plain [(''suppliedOptions'', opts), (''body'', payload)])))),
       buildAgileURL = (\<lambda>path. ''https://jira.example.com/rest/agile/1.0'' @ path),
       makeRequest = (\<lambda>d callback h. (d, callback, h)) \<rparr>"

text \<open>
  The same client with a transport that keeps the contract of the specification; the
  outcome of its network call is the descriptor it was given, so that the outcome shows
  which call was made.
\<close>

definition contractClient :: "(string, (string, request) dispatched) jiraClient" where
  "contractClient =
     \<lparr> parseOptions = parseOptions exampleClient,
       buildAgileURL = buildAgileURL exampleClient,
       makeRequest = transportExecute (\<lambda>d h. d) \<rparr>"

text \<open>
  The store of the examples:
  address 1 holds \<^verbatim>\<open>{sprintId: 42, maxResults: 50}\<close>,
  address 2 holds \<^verbatim>\<open>{data: <3>}\<close> and address 3 holds \<^verbatim>\<open>{sprintId: 331, name: "Sprint 5"}\<close>,
  addresses 4 and 5 each hold \<^verbatim>\<open>{sprintId: "7", rankBeforeIssue: "ISS-9"}\<close>,
  address 6 holds \<^verbatim>\<open>{maxResults: 50}\<close>, an object without identifier,
  address 7 holds \<^verbatim>\<open>{data: <6>}\<close>, options whose payload has no identifier,
  addresses 8 and 9 hold a second copy of the objects at 2 and 3,
  address 10 holds the frozen object
  \<^verbatim>\<open>Object.freeze({sprintId: "7", rankBeforeIssue: "ISS-9"})\<close>.
\<close>

definition exampleStore :: heap where
  "exampleStore = (\<lambda>_. Map.empty)
     (1 := plain [(''sprintId'', Num (safeInt 42)), (''maxResults'', Num (safeInt 50))],
      2 := plain [(''data'', Ref 3)],
      3 := plain [(''sprintId'', Num (safeInt 331)), (''name'', Str ''Sprint 5'')],
      4 := plain [(''sprintId'', Str ''7''), (''rankBeforeIssue'', Str ''ISS-9'')],
      5 := plain [(''sprintId'', Str ''7''), (''rankBeforeIssue'', Str ''ISS-9'')],
      6 := plain [(''maxResults'', Num (safeInt 50))],
      7 := plain [(''data'', Ref 6)],
      8 := plain [(''data'', Ref 9)],
      9 := plain [(''sprintId'', Num (safeInt 331)), (''name'', Str ''Sprint 5'')],
      10 := frozen [(''sprintId'', Str ''7''), (''rankBeforeIssue'', Str ''ISS-9'')])"

text \<open>
  The store after the example client has parsed the options at address \<open>a\<close> whose
  \<^verbatim>\<open>data\<close> field is \<open>payload\<close>: the result object
  \<^verbatim>\<open>{suppliedOptions: <a>, body: payload}\<close> is at address 0.
\<close>

definition parsedFrom :: "addr \<Rightarrow> jsval \<Rightarrow> heap" where
  "parsedFrom a payload =
     exampleStore(0 := plain [(''suppliedOptions'', Ref a), (''body'', payload)])"

definition parsedStore :: heap where
  "parsedStore = parsedFrom 2 (Ref 3)"

text \<open>The pairing of the objects at 4, 2 and 3 with their copies at 5, 8 and 9.\<close>

definition examplePairing :: "addr \<Rightarrow> addr \<Rightarrow> bool" where
  "examplePairing a b \<longleftrightarrow>
     (a = 4 \<and> b = 5) \<or> (a = 0 \<and> b = 0) \<or> (a = 2 \<and> b = 8) \<or> (a = 3 \<and> b = 9)"

section \<open>Relations used in the proofs\<close>

text \<open>
  Two results agree up to the method: both throw the same error in the same store, or both
  return what the transport returns for descriptors that differ in the method alone.
\<close>

definition sameButMethod ::
    "('cb, 'r) jiraClient \<Rightarrow> 'cb option \<Rightarrow> (js_error \<times> heap) + 'r \<Rightarrow> (js_error \<times> heap) + 'r \<Rightarrow> bool" where
  "sameButMethod this cb x y = (case x of
       Inl eh \<Rightarrow> y = Inl eh
     | Inr r \<Rightarrow> (\<exists>d h'. r = makeRequest this d cb h' \<and> method d = ''PUT'' \<and>
          y = Inr (makeRequest this (d\<lparr>method := ''POST''\<rparr>) cb h')))"

text \<open>
  Structural identity. Two values are alike up to object identity when they are the same
  primitive, or references to objects with the same keys, the same attributes, and values
  that are alike in turn.
  \<open>R\<close> pairs the addresses of the first structure with those of the second; it is
  one-to-one, so that sharing inside one structure is matched by sharing inside the other.
\<close>

definition oneToOne :: "(addr \<Rightarrow> addr \<Rightarrow> bool) \<Rightarrow> bool" where
  "oneToOne R \<longleftrightarrow>
     (\<forall>a b b'. R a b \<longrightarrow> R a b' \<longrightarrow> b = b') \<and> (\<forall>a a' b. R a b \<longrightarrow> R a' b \<longrightarrow> a = a')"

inductive corr :: "(addr \<Rightarrow> addr \<Rightarrow> bool) \<Rightarrow> heap \<Rightarrow> heap \<Rightarrow> jsval \<Rightarrow> jsval \<Rightarrow> bool"
  for R :: "addr \<Rightarrow> addr \<Rightarrow> bool" and h1 :: heap and h2 :: heap where
  corr_prim: "(\<forall>a. v \<noteq> Ref a) \<Longrightarrow> corr R h1 h2 v v"
| corr_Ref: "R a b \<Longrightarrow> dom (h1 a) = dom (h2 b) \<Longrightarrow>
     (\<And>k p q. h1 a k = Some p \<Longrightarrow> h2 b k = Some q \<Longrightarrow> configurable p = configurable q) \<Longrightarrow>
     (\<And>k p q. h1 a k = Some p \<Longrightarrow> h2 b k = Some q \<Longrightarrow>
        corr R h1 h2 (propValue p) (propValue q)) \<Longrightarrow>
     corr R h1 h2 (Ref a) (Ref b)"

text \<open>
  Two descriptors, each in its store, are deep-equal except for object identity: the
  primitive fields are equal and the fields that hold values are alike.
\<close>

definition corrRequest ::
    "(addr \<Rightarrow> addr \<Rightarrow> bool) \<Rightarrow> heap \<Rightarrow> heap \<Rightarrow> request \<Rightarrow> request \<Rightarrow> bool" where
  "corrRequest R h1 h2 d1 d2 \<longleftrightarrow>
     uri d1 = uri d2 \<and> method d1 = method d2 \<and>
     followAllRedirects d1 = followAllRedirects d2 \<and> json d1 = json d2 \<and>
     corr R h1 h2 (suppliedOptions d1) (suppliedOptions d2) \<and>
     rel_option (\<lambda>q1 q2. dom q1 = dom q2 \<and>
        (\<forall>k v w. q1 k = Some v \<longrightarrow> q2 k = Some w \<longrightarrow> corr R h1 h2 v w)) (qs d1) (qs d2) \<and>
     rel_option (corr R h1 h2) (body d1) (body d2)"

text \<open>
  Two runs of an operation have the same outcome up to object identity: both throw the same
  error, or both call the transport, with the same callback and with descriptors that are
  deep-equal except for object identity in the stores of the two calls.
\<close>

definition sameUpToIdentity ::
    "('cb, 'r) jiraClient \<Rightarrow> 'cb option \<Rightarrow> (addr \<Rightarrow> addr \<Rightarrow> bool)
      \<Rightarrow> (js_error \<times> heap) + 'r \<Rightarrow> (js_error \<times> heap) + 'r \<Rightarrow> bool" where
  "sameUpToIdentity this cb R x y \<longleftrightarrow>
     (\<exists>e g1 g2. x = Inl (e, g1) \<and> y = Inl (e, g2)) \<or>
     (\<exists>d1 g1 d2 g2. x = Inr (makeRequest this d1 cb g1) \<and> y = Inr (makeRequest this d2 cb g2) \<and>
        corrRequest R g1 g2 d1 d2)"

text \<open>
  Two statements run alike from the stores \<open>h1\<close> and \<open>h2\<close>: both throw the same
  error, or both yield results related by \<open>V\<close>.
\<close>

definition relP ::
    "(heap \<Rightarrow> heap \<Rightarrow> 'a \<Rightarrow> 'a \<Rightarrow> bool) \<Rightarrow> heap \<Rightarrow> heap \<Rightarrow> 'a prog \<Rightarrow> 'a prog \<Rightarrow> bool" where
  "relP V h1 h2 m1 m2 \<longleftrightarrow> (case m1 h1 of
       Inl (e, g1) \<Rightarrow> (\<exists>g2. m2 h2 = Inl (e, g2))
     | Inr (x1, g1) \<Rightarrow> (\<exists>x2 g2. m2 h2 = Inr (x2, g2) \<and> V g1 g2 x1 x2))"

text \<open>
  The store \<open>h'\<close> is the store \<open>h\<close> with the key \<^verbatim>\<open>sprintId\<close> deleted from the
  object at \<open>a\<close> and nothing else changed.
\<close>

definition strippedOf :: "heap \<Rightarrow> addr \<Rightarrow> heap \<Rightarrow> bool" where
  "strippedOf h a h' \<longleftrightarrow>
     h' a ''sprintId'' = None \<and>
     (\<forall>k. k \<noteq> ''sprintId'' \<longrightarrow> h' a k = h a k) \<and>
     (\<forall>b. b \<noteq> a \<longrightarrow> h' b = h b)"

section \<open>Running the statements\<close>

lemma bindP_returnP [simp]: "bindP (returnP x) f h = f x h"
  by (simp add: bindP_def returnP_def)

lemma bindP_throwP [simp]: "bindP (throwP e) f h = Inl (e, h)"
  by (simp add: bindP_def throwP_def)

lemma bindP_getProp_Ref [simp]: "bindP (getProp (Ref a) k) f h = f (propOf h a k) h"
  by (simp add: bindP_def getProp_def)

lemma bindP_getProp_Undefined [simp]: "bindP (getProp Undefined k) f h = Inl (TypeError, h)"
  by (simp add: getProp_def)

lemma bindP_getProp_Null [simp]: "bindP (getProp Null k) f h = Inl (TypeError, h)"
  by (simp add: getProp_def)

lemma bindP_getProp_Bool [simp]: "bindP (getProp (Bool b) k) f h = f Undefined h"
  by (simp add: getProp_def)

lemma bindP_getProp_Num [simp]: "bindP (getProp (Num n) k) f h = f Undefined h"
  by (simp add: getProp_def)

lemma bindP_getProp_Str [simp]: "bindP (getProp (Str s) k) f h = f Undefined h"
  by (simp add: getProp_def)

lemma bindP_deleteProp_Ref [simp]:
  "bindP (deleteProp (Ref a) k) f h =
     (if deletable h a k then f () (h(a := (h a)(k := None))) else Inl (TypeError, h))"
  by (simp add: bindP_def deleteProp_def)

lemma bindP_deleteProp_Undefined [simp]:
  "bindP (deleteProp Undefined k) f h = Inl (TypeError, h)"
  by (simp add: deleteProp_def)

lemma bindP_deleteProp_Null [simp]: "bindP (deleteProp Null k) f h = Inl (TypeError, h)"
  by (simp add: deleteProp_def)

lemma bindP_deleteProp_Bool [simp]: "bindP (deleteProp (Bool b) k) f h = f () h"
  by (simp add: deleteProp_def)

lemma bindP_deleteProp_Num [simp]: "bindP (deleteProp (Num n) k) f h = f () h"
  by (simp add: deleteProp_def)

lemma bindP_deleteProp_Str [simp]: "bindP (deleteProp (Str s) k) f h = f () h"
  by (simp add: deleteProp_def)

lemma bindP_plusStr [simp]:
  "bindP (plusStr s v) f h =
     (case textOf h v of None \<Rightarrow> Inl (TypeError, h) | Some t \<Rightarrow> f (s @ t) h)"
  by (simp add: plusStr_def toStr_def bindP_def returnP_def split: option.splits)

lemma textOf_delete [simp]:
  "k \<noteq> ''toString'' \<Longrightarrow> textOf (h(a := (h a)(k := None))) v = textOf h v"
  by (cases v) (auto simp: textOf_def)

lemma propOf_delete_other [simp]:
  "k' \<noteq> k \<Longrightarrow> propOf (h(a := (h a)(k := None))) b k' = propOf h b k'"
  by (simp add: propOf_def)

lemma propOf_Some: "h a k = Some p \<Longrightarrow> propOf h a k = propValue p"
  by (simp add: propOf_def)

lemma deletable_None: "h a k = None \<Longrightarrow> deletable h a k"
  by (simp add: deletable_def)

lemma intOf_safeInt: "\<bar>i\<bar> < 2 ^ 53 \<Longrightarrow> intOf (safeInt i) = i"
  by (simp add: safeInt_inverse)

lemma propOf_None: "h a k = None \<Longrightarrow> propOf h a k = Undefined"
  by (simp add: propOf_def)

lemma bindP_known:
  "parseOptions this opts nm h = Inr (x, g) \<Longrightarrow> bindP (parseOptions this opts nm) f h = f x g"
  by (simp add: bindP_def)

lemma bindP_Inr_elim:
  assumes "bindP m f h = Inr r"
  obtains x h' where "m h = Inr (x, h')" and "f x h' = Inr r"
  using assms by (auto simp: bindP_def split: sum.splits)

lemmas op_defs = createSprint_def getSprint_def updateSprint_def partiallyUpdateSprint_def
  deleteSprint_def getSprintIssues_def moveSprintIssues_def swapSprint_def

lemmas example_defs = exampleClient_def exampleStore_def propOf_def textOf_def
  showInt_def showNat.simps digitChar_def plain_def frozen_def intOf_safeInt deletable_def

section \<open>What each operation does with an options object\<close>

lemma strippedOf_delete: "strippedOf h a (h(a := (h a)(''sprintId'' := None)))"
  by (simp add: strippedOf_def)

lemma createSprint_obj:
  assumes "parseOptions this opts Undefined h = Inr (Ref r, g)"
  shows "createSprint this opts cb h = Inr (makeRequest this
         \<lparr> uri = buildAgileURL this ''/sprint'', method = ''POST'',
           followAllRedirects = True, json = True,
           suppliedOptions = propOf g r ''suppliedOptions'',
           qs = None, body = Some (propOf g r ''body'') \<rparr> cb g)"
  using assms by (simp add: createSprint_def bindP_def[of "parseOptions this opts Undefined"])

lemma getSprint_obj:
  assumes "textOf h (propOf h a ''sprintId'') = Some t"
  shows "getSprint this (Ref a) cb h = Inr (makeRequest this
         \<lparr> uri = buildAgileURL this (''/sprint/'' @ t), method = ''GET'',
           followAllRedirects = True, json = True, suppliedOptions = Ref a,
           qs = Some [''filter'' \<mapsto> propOf h a ''filter'', ''startAt'' \<mapsto> propOf h a ''startAt'',
                      ''maxResults'' \<mapsto> propOf h a ''maxResults''],
           body = None \<rparr> cb h)"
  using assms by (simp add: getSprint_def)

lemma deleteSprint_obj:
  assumes "textOf h (propOf h a ''sprintId'') = Some t"
  shows "deleteSprint this (Ref a) cb h = Inr (makeRequest this
         \<lparr> uri = buildAgileURL this (''/sprint/'' @ t), method = ''DELETE'',
           followAllRedirects = True, json = True, suppliedOptions = Ref a,
           qs = Some [''filter'' \<mapsto> propOf h a ''filter'', ''startAt'' \<mapsto> propOf h a ''startAt'',
                      ''maxResults'' \<mapsto> propOf h a ''maxResults''],
           body = None \<rparr> cb h)"
  using assms by (simp add: deleteSprint_def)

lemma getSprintIssues_obj:
  assumes "textOf h (propOf h a ''sprintId'') = Some t"
  shows "getSprintIssues this (Ref a) cb h = Inr (makeRequest this
         \<lparr> uri = buildAgileURL this (''/sprint/'' @ t @ ''/issue''), method = ''GET'',
           followAllRedirects = True, json = True, suppliedOptions = Ref a,
           qs = Some [''startAt'' \<mapsto> propOf h a ''startAt'',
                      ''maxResults'' \<mapsto> propOf h a ''maxResults'',
                      ''jql'' \<mapsto> propOf h a ''jql'',
                      ''validateQuery'' \<mapsto> propOf h a ''validateQuery'',
                      ''fields'' \<mapsto> propOf h a ''fields'',
                      ''expand'' \<mapsto> propOf h a ''expand''],
           body = None \<rparr> cb h)"
  using assms by (simp add: getSprintIssues_def)

lemma moveSprintIssues_obj:
  assumes "textOf h (propOf h a ''sprintId'') = Some t" and "deletable h a ''sprintId''"
  shows "moveSprintIssues this (Ref a) cb h = Inr (makeRequest this
         \<lparr> uri = buildAgileURL this (''/sprint/'' @ t @ ''/issue''), method = ''POST'',
           followAllRedirects = True, json = True, suppliedOptions = Ref a,
           qs = None, body = Some (Ref a) \<rparr> cb (h(a := (h a)(''sprintId'' := None))))"
  using assms by (simp add: moveSprintIssues_def)

lemma moveSprintIssues_obj_throws:
  assumes "textOf h (propOf h a ''sprintId'') = None" and "deletable h a ''sprintId''"
  shows "moveSprintIssues this (Ref a) cb h = Inl (TypeError, h(a := (h a)(''sprintId'' := None)))"
  using assms by (simp add: moveSprintIssues_def)

lemma moveSprintIssues_obj_locked:
  assumes "\<not> deletable h a ''sprintId''"
  shows "moveSprintIssues this (Ref a) cb h = Inl (TypeError, h)"
  using assms by (simp add: moveSprintIssues_def)

lemma updateSprint_obj_locked:
  assumes "parseOptions this opts (Str ''sprint'') h = Inr (Ref r, g)"
    and "propOf g r ''body'' = Ref b"
    and "\<not> deletable g b ''sprintId''"
  shows "updateSprint this opts cb h = Inl (TypeError, g)"
  using assms by (simp add: updateSprint_def bindP_known)

lemma updateSprint_obj_throws:
  assumes "parseOptions this opts (Str ''sprint'') h = Inr (Ref r, g)"
    and "propOf g r ''body'' = Ref b"
    and "textOf g (propOf g b ''sprintId'') = None"
    and "deletable g b ''sprintId''"
  shows "updateSprint this opts cb h = Inl (TypeError, g(b := (g b)(''sprintId'' := None)))"
  using assms by (simp add: updateSprint_def bindP_known)

lemma updateSprint_obj:
  assumes "parseOptions this opts (Str ''sprint'') h = Inr (Ref r, g)"
    and "propOf g r ''body'' = Ref b"
    and "textOf g (propOf g b ''sprintId'') = Some t"
    and "deletable g b ''sprintId''"
  shows "updateSprint this opts cb h = Inr (makeRequest this
         \<lparr> uri = buildAgileURL this (''/sprint/'' @ t), method = ''PUT'',
           followAllRedirects = True, json = True,
           suppliedOptions = propOf g r ''suppliedOptions'',
           qs = None, body = Some (Ref b) \<rparr> cb (g(b := (g b)(''sprintId'' := None))))"
  using assms by (simp add: updateSprint_def bindP_def[of "parseOptions this opts (Str ''sprint'')"])

lemma partiallyUpdateSprint_obj_locked:
  assumes "parseOptions this opts (Str ''sprint'') h = Inr (Ref r, g)"
    and "propOf g r ''body'' = Ref b"
    and "\<not> deletable g b ''sprintId''"
  shows "partiallyUpdateSprint this opts cb h = Inl (TypeError, g)"
  using assms by (simp add: partiallyUpdateSprint_def bindP_known)

lemma partiallyUpdateSprint_obj_throws:
  assumes "parseOptions this opts (Str ''sprint'') h = Inr (Ref r, g)"
    and "propOf g r ''body'' = Ref b"
    and "textOf g (propOf g b ''sprintId'') = None"
    and "deletable g b ''sprintId''"
  shows "partiallyUpdateSprint this opts cb h = Inl (TypeError, g(b := (g b)(''sprintId'' := None)))"
  using assms by (simp add: partiallyUpdateSprint_def bindP_known)

lemma partiallyUpdateSprint_obj:
  assumes "parseOptions this opts (Str ''sprint'') h = Inr (Ref r, g)"
    and "propOf g r ''body'' = Ref b"
    and "textOf g (propOf g b ''sprintId'') = Some t"
    and "deletable g b ''sprintId''"
  shows "partiallyUpdateSprint this opts cb h = Inr (makeRequest this
         \<lparr> uri = buildAgileURL this (''/sprint/'' @ t), method = ''POST'',
           followAllRedirects = True, json = True,
           suppliedOptions = propOf g r ''suppliedOptions'',
           qs = None, body = Some (Ref b) \<rparr> cb (g(b := (g b)(''sprintId'' := None))))"
  using assms
  by (simp add: partiallyUpdateSprint_def bindP_def[of "parseOptions this opts (Str ''sprint'')"])

lemma swapSprint_obj_locked:
  assumes "parseOptions this opts (Str ''swapped'') h = Inr (Ref r, g)"
    and "propOf g r ''body'' = Ref b"
    and "\<not> deletable g b ''sprintId''"
  shows "swapSprint this opts cb h = Inl (TypeError, g)"
  using assms by (simp add: swapSprint_def bindP_known)

lemma swapSprint_obj_throws:
  assumes "parseOptions this opts (Str ''swapped'') h = Inr (Ref r, g)"
    and "propOf g r ''body'' = Ref b"
    and "textOf g (propOf g b ''sprintId'') = None"
    and "deletable g b ''sprintId''"
  shows "swapSprint this opts cb h = Inl (TypeError, g(b := (g b)(''sprintId'' := None)))"
  using assms by (simp add: swapSprint_def bindP_known)

lemma swapSprint_obj:
  assumes "parseOptions this opts (Str ''swapped'') h = Inr (Ref r, g)"
    and "propOf g r ''body'' = Ref b"
    and "textOf g (propOf g b ''sprintId'') = Some t"
    and "deletable g b ''sprintId''"
  shows "swapSprint this opts cb h = Inr (makeRequest this
         \<lparr> uri = buildAgileURL this (''/sprint/'' @ t @ ''/swap''), method = ''POST'',
           followAllRedirects = True, json = True,
           suppliedOptions = propOf g r ''suppliedOptions'',
           qs = None, body = Some (Ref b) \<rparr> cb (g(b := (g b)(''sprintId'' := None))))"
  using assms
  by (simp add: swapSprint_def bindP_def[of "parseOptions this opts (Str ''swapped'')"])

section \<open>The examples of the specification, run on the model\<close>

lemma example_getSprint:
  "AgileSprintClient exampleClient GetSprint (Ref 1) None exampleStore =
     Inr (\<lparr> uri = ''https://jira.example.com/rest/agile/1.0/sprint/42'',
            method = ''GET'', followAllRedirects = True, json = True,
            suppliedOptions = Ref 1,
            qs = Some [''filter'' \<mapsto> Undefined, ''startAt'' \<mapsto> Undefined,
                       ''maxResults'' \<mapsto> Num (safeInt 50)],
            body = None \<rparr>, None, exampleStore)"
  by (simp add: AgileSprintClient_def getSprint_def example_defs)

lemma example_parseOptions:
  "parseOptions exampleClient (Ref 2) name exampleStore = Inr (Ref 0, parsedStore)"
  by (simp add: exampleClient_def parsedStore_def parsedFrom_def)
     (simp add: exampleStore_def propOf_def plain_def)

lemma example_parsed_body: "propOf parsedStore 0 ''body'' = Ref 3"
  by (simp add: parsedStore_def parsedFrom_def propOf_def plain_def)

lemma example_parsed_id: "propOf parsedStore 3 ''sprintId'' = Num (safeInt 331)"
  by (simp add: parsedStore_def parsedFrom_def example_defs)

lemma example_parsed_deletable: "deletable parsedStore 3 ''sprintId''"
  by (simp add: parsedStore_def parsedFrom_def example_defs)

lemma example_deletable_4: "deletable exampleStore 4 ''sprintId''"
  by (simp add: example_defs)

lemma example_parsed_text: "textOf parsedStore (propOf parsedStore 3 ''sprintId'') = Some ''331''"
  by (simp add: parsedStore_def parsedFrom_def example_defs)

lemma example_text_4: "textOf exampleStore (propOf exampleStore 4 ''sprintId'') = Some ''7''"
  by (simp add: example_defs)

lemma example_moveSprintIssues:
  "moveSprintIssues exampleClient (Ref 4) None exampleStore =
     Inr (\<lparr> uri = ''https://jira.example.com/rest/agile/1.0/sprint/7/issue'',
            method = ''POST'', followAllRedirects = True, json = True,
            suppliedOptions = Ref 4, qs = None, body = Some (Ref 4) \<rparr>, None,
          exampleStore(4 := (exampleStore 4)(''sprintId'' := None)))"
  by (simp add: moveSprintIssues_def exampleClient_def, simp add: example_defs)

section \<open>Transport flags\<close>

text \<open>
  Claim C10. Every descriptor that any of the eight operations hands to the transport has
  \<^verbatim>\<open>json\<close> set to true and \<^verbatim>\<open>followAllRedirects\<close> set to true, whatever the options
  are: whenever an operation returns, what it returns is the transport's answer to a
  descriptor carrying both flags.
\<close>

theorem transport_flags_always_set:
  "AgileSprintClient this m opts cb h = Inr r \<Longrightarrow>
     \<exists>d h'. r = makeRequest this d cb h' \<and> json d \<and> followAllRedirects d"
  unfolding AgileSprintClient_def op_defs
  by (cases m; simp; elim bindP_Inr_elim) fastforce+

theorem transport_flags_witness:
  "AgileSprintClient exampleClient GetSprint (Ref 1) None exampleStore =
     Inr (\<lparr> uri = ''https://jira.example.com/rest/agile/1.0/sprint/42'',
            method = ''GET'', followAllRedirects = True, json = True,
            suppliedOptions = Ref 1,
            qs = Some [''filter'' \<mapsto> Undefined, ''startAt'' \<mapsto> Undefined,
                       ''maxResults'' \<mapsto> Num (safeInt 50)],
            body = None \<rparr>, None, exampleStore)
   \<and> (\<exists>d h'. (\<lparr> uri = ''https://jira.example.com/rest/agile/1.0/sprint/42'',
            method = ''GET'', followAllRedirects = True, json = True,
            suppliedOptions = Ref 1,
            qs = Some [''filter'' \<mapsto> Undefined, ''startAt'' \<mapsto> Undefined,
                       ''maxResults'' \<mapsto> Num (safeInt 50)],
            body = None \<rparr>, None, exampleStore) = makeRequest exampleClient d None h'
          \<and> json d \<and> followAllRedirects d)"
  using transport_flags_always_set [OF example_getSprint] example_getSprint by simp

section \<open>Operations that only read the options\<close>

text \<open>
  Claim C8. getSprint, deleteSprint and getSprintIssues leave the caller's options object
  as it was, for every options value: the store in which the transport is called, or in
  which the operation throws, is the store the operation was called in, so no key of any
  object has been added, removed or changed.
\<close>

theorem read_operations_leave_options_unchanged:
  "(getSprint this opts cb h = Inl (TypeError, h) \<or>
      (\<exists>d. getSprint this opts cb h = Inr (makeRequest this d cb h))) \<and>
   (deleteSprint this opts cb h = Inl (TypeError, h) \<or>
      (\<exists>d. deleteSprint this opts cb h = Inr (makeRequest this d cb h))) \<and>
   (getSprintIssues this opts cb h = Inl (TypeError, h) \<or>
      (\<exists>d. getSprintIssues this opts cb h = Inr (makeRequest this d cb h)))"
proof (intro conjI)
  show "getSprint this opts cb h = Inl (TypeError, h) \<or>
      (\<exists>d. getSprint this opts cb h = Inr (makeRequest this d cb h))"
    unfolding getSprint_def by (cases opts) (auto split: option.splits)
  show "deleteSprint this opts cb h = Inl (TypeError, h) \<or>
      (\<exists>d. deleteSprint this opts cb h = Inr (makeRequest this d cb h))"
    unfolding deleteSprint_def by (cases opts) (auto split: option.splits)
  show "getSprintIssues this opts cb h = Inl (TypeError, h) \<or>
      (\<exists>d. getSprintIssues this opts cb h = Inr (makeRequest this d cb h))"
    unfolding getSprintIssues_def by (cases opts) (auto split: option.splits)
qed

section \<open>Full and partial update\<close>

lemma sameButMethod_bind:
  assumes "\<And>x h'. sameButMethod this cb (f x h') (g x h')"
  shows "sameButMethod this cb (bindP m f h) (bindP m g h)"
proof (cases "m h")
  case (Inl eh)
  then show ?thesis by (simp add: bindP_def sameButMethod_def)
next
  case (Inr p)
  obtain x h' where "p = (x, h')" by (cases p)
  with Inr assms[of x h'] show ?thesis by (simp add: bindP_def)
qed

lemma update_partial_sameButMethod:
  "sameButMethod this cb (updateSprint this opts cb h) (partiallyUpdateSprint this opts cb h)"
  unfolding updateSprint_def partiallyUpdateSprint_def
  apply (intro sameButMethod_bind)
  apply (simp add: sameButMethod_def)
  apply (rule exI, rule exI, rule conjI, rule refl)
  apply simp
  done

text \<open>
  Claim C9. For every options value, updateSprint and partiallyUpdateSprint behave alike up
  to the method: either both throw the same error in the same store, or they call the
  transport in the same store with descriptors that are equal in url, query, body, flags and
  suppliedOptions, the method being PUT for updateSprint and POST for
  partiallyUpdateSprint.
\<close>

theorem update_and_partial_update_differ_in_method_only:
  "(\<exists>e h'. updateSprint this opts cb h = Inl (e, h') \<and>
        partiallyUpdateSprint this opts cb h = Inl (e, h')) \<or>
   (\<exists>d h'. updateSprint this opts cb h = Inr (makeRequest this d cb h') \<and>
        method d = ''PUT'' \<and>
        partiallyUpdateSprint this opts cb h =
          Inr (makeRequest this (d\<lparr>method := ''POST''\<rparr>) cb h'))"
proof (cases "updateSprint this opts cb h")
  case (Inl eh)
  with update_partial_sameButMethod[of this cb opts h] show ?thesis
    by (cases eh) (simp add: sameButMethod_def)
next
  case (Inr r)
  with update_partial_sameButMethod[of this cb opts h] show ?thesis
    by (auto simp: sameButMethod_def)
qed

section \<open>The query of the read and delete operations\<close>

text \<open>
  Claim C3. For getSprint, deleteSprint and getSprintIssues and every options object,
  whichever of the optional fields it supplies, the query of the descriptor has exactly the
  keys the operation declares (filter, startAt, maxResults for getSprint and deleteSprint;
  startAt, maxResults, jql, validateQuery, fields, expand for getSprintIssues), each key
  holding the value read from the options, which is \<^verbatim>\<open>undefined\<close> where the options do not
  supply it, and the descriptor has no body. The hypothesis says that the identifier has a
  text to put into the path, which fails only for an object that hides \<^verbatim>\<open>toString\<close>.
\<close>

theorem read_operations_query_keys:
  assumes "textOf h (propOf h a ''sprintId'') = Some t"
  shows "(\<exists>d q. getSprint this (Ref a) cb h = Inr (makeRequest this d cb h) \<and>
            qs d = Some q \<and> dom q = {''filter'', ''startAt'', ''maxResults''} \<and>
            (\<forall>k \<in> dom q. q k = Some (propOf h a k)) \<and> body d = None) \<and>
         (\<exists>d q. deleteSprint this (Ref a) cb h = Inr (makeRequest this d cb h) \<and>
            qs d = Some q \<and> dom q = {''filter'', ''startAt'', ''maxResults''} \<and>
            (\<forall>k \<in> dom q. q k = Some (propOf h a k)) \<and> body d = None) \<and>
         (\<exists>d q. getSprintIssues this (Ref a) cb h = Inr (makeRequest this d cb h) \<and>
            qs d = Some q \<and>
            dom q = {''startAt'', ''maxResults'', ''jql'', ''validateQuery'', ''fields'', ''expand''} \<and>
            (\<forall>k \<in> dom q. q k = Some (propOf h a k)) \<and> body d = None)"
proof (intro conjI)
  show "\<exists>d q. getSprint this (Ref a) cb h = Inr (makeRequest this d cb h) \<and>
            qs d = Some q \<and> dom q = {''filter'', ''startAt'', ''maxResults''} \<and>
            (\<forall>k \<in> dom q. q k = Some (propOf h a k)) \<and> body d = None"
    unfolding getSprint_obj[OF assms]
    by (intro exI conjI, rule refl) (simp, auto)
  show "\<exists>d q. deleteSprint this (Ref a) cb h = Inr (makeRequest this d cb h) \<and>
            qs d = Some q \<and> dom q = {''filter'', ''startAt'', ''maxResults''} \<and>
            (\<forall>k \<in> dom q. q k = Some (propOf h a k)) \<and> body d = None"
    unfolding deleteSprint_obj[OF assms]
    by (intro exI conjI, rule refl) (simp, auto)
  show "\<exists>d q. getSprintIssues this (Ref a) cb h = Inr (makeRequest this d cb h) \<and>
            qs d = Some q \<and>
            dom q = {''startAt'', ''maxResults'', ''jql'', ''validateQuery'', ''fields'', ''expand''} \<and>
            (\<forall>k \<in> dom q. q k = Some (propOf h a k)) \<and> body d = None"
    unfolding getSprintIssues_obj[OF assms]
    by (intro exI conjI, rule refl) (simp, auto)
qed


theorem read_operations_query_keys_witness:
  "textOf exampleStore (propOf exampleStore 1 ''sprintId'') = Some ''42'' \<and>
   (\<exists>d q. getSprint exampleClient (Ref 1) None exampleStore =
              Inr (makeRequest exampleClient d None exampleStore) \<and>
      qs d = Some q \<and> dom q = {''filter'', ''startAt'', ''maxResults''} \<and>
      (\<forall>k \<in> dom q. q k = Some (propOf exampleStore 1 k)) \<and> body d = None)"
proof -
  have t: "textOf exampleStore (propOf exampleStore 1 ''sprintId'') = Some ''42''"
    by (simp add: example_defs)
  from read_operations_query_keys [OF t, of exampleClient None] t show ?thesis
    by blast
qed


section \<open>The descriptor of each operation against the operation table\<close>

lemma specPath_placeholderFree: "placeholderFree t \<Longrightarrow> placeholderFree (specPath m t)"
  by (cases m) (simp_all add: specPath_def placeholderFree_def)

lemma reads_table:
  assumes "m \<in> {GetSprint, DeleteSprint, GetSprintIssues, MoveSprintIssues}"
    and "textOf h (propOf h a ''sprintId'') = Some t"
    and "m = MoveSprintIssues \<longrightarrow> deletable h a ''sprintId''"
  shows "\<exists>d h'. AgileSprintClient this m (Ref a) cb h = Inr (makeRequest this d cb h') \<and>
           uri d = buildAgileURL this (specPath m t) \<and> method d = specMethod m \<and>
           suppliedOptions d = Ref a"
proof -
  from assms(1) consider "m = GetSprint" | "m = DeleteSprint" | "m = GetSprintIssues"
    | "m = MoveSprintIssues" by auto
  then show ?thesis
  proof cases
    case 1
    show ?thesis unfolding 1 AgileSprintClient_def sprintMethod.case getSprint_obj[OF assms(2)]
      by (intro exI conjI, rule refl) (simp_all add: specPath_def specMethod_def)
  next
    case 2
    show ?thesis unfolding 2 AgileSprintClient_def sprintMethod.case deleteSprint_obj[OF assms(2)]
      by (intro exI conjI, rule refl) (simp_all add: specPath_def specMethod_def)
  next
    case 3
    show ?thesis
      unfolding 3 AgileSprintClient_def sprintMethod.case getSprintIssues_obj[OF assms(2)]
      by (intro exI conjI, rule refl) (simp_all add: specPath_def specMethod_def)
  next
    case 4
    with assms(3) have l: "deletable h a ''sprintId''" by simp
    show ?thesis
      unfolding 4 AgileSprintClient_def sprintMethod.case moveSprintIssues_obj[OF assms(2) l]
      by (intro exI conjI, rule refl) (simp_all add: specPath_def specMethod_def)
  qed
qed

lemma payload_table:
  assumes "m \<in> {UpdateSprint, PartiallyUpdateSprint, SwapSprint}"
    and "parseOptions this opts (parseName m) h = Inr (Ref r, g)"
    and "propOf g r ''body'' = Ref b"
    and "textOf g (propOf g b ''sprintId'') = Some t"
    and "deletable g b ''sprintId''"
  shows "\<exists>d h'. AgileSprintClient this m opts cb h = Inr (makeRequest this d cb h') \<and>
           uri d = buildAgileURL this (specPath m t) \<and> method d = specMethod m \<and>
           body d = Some (Ref b) \<and> strippedOf g b h'"
proof -
  from assms(1) consider "m = UpdateSprint" | "m = PartiallyUpdateSprint" | "m = SwapSprint"
    by auto
  then show ?thesis
  proof cases
    case 1
    with assms(2) have p: "parseOptions this opts (Str ''sprint'') h = Inr (Ref r, g)"
      by (simp add: parseName_def)
    show ?thesis
      unfolding 1 AgileSprintClient_def sprintMethod.case updateSprint_obj[OF p assms(3-5)]
      by (intro exI conjI, rule refl) (simp_all add: specPath_def specMethod_def strippedOf_delete)
  next
    case 2
    with assms(2) have p: "parseOptions this opts (Str ''sprint'') h = Inr (Ref r, g)"
      by (simp add: parseName_def)
    show ?thesis
      unfolding 2 AgileSprintClient_def sprintMethod.case
        partiallyUpdateSprint_obj[OF p assms(3-5)]
      by (intro exI conjI, rule refl) (simp_all add: specPath_def specMethod_def strippedOf_delete)
  next
    case 3
    with assms(2) have p: "parseOptions this opts (Str ''swapped'') h = Inr (Ref r, g)"
      by (simp add: parseName_def)
    show ?thesis
      unfolding 3 AgileSprintClient_def sprintMethod.case swapSprint_obj[OF p assms(3-5)]
      by (intro exI conjI, rule refl) (simp_all add: specPath_def specMethod_def strippedOf_delete)
  qed
qed

lemma create_table:
  assumes "parseOptions this opts Undefined h = Inr (Ref r, g)"
  shows "\<exists>d h'. AgileSprintClient this CreateSprint opts cb h = Inr (makeRequest this d cb h') \<and>
           uri d = buildAgileURL this (specPath CreateSprint []) \<and>
           method d = specMethod CreateSprint \<and>
           body d = Some (propOf g r ''body'')"
  unfolding AgileSprintClient_def sprintMethod.case createSprint_obj[OF assms]
  by (intro exI conjI, rule refl) (simp_all add: specPath_def specMethod_def)

section \<open>Construction is a function of the structure\<close>

lemma same_bind:
  assumes "relP V h1 h2 m1 m2"
    and "\<And>x1 g1 x2 g2. V g1 g2 x1 x2 \<Longrightarrow> sameUpToIdentity this cb R (f1 x1 g1) (f2 x2 g2)"
  shows "sameUpToIdentity this cb R (bindP m1 f1 h1) (bindP m2 f2 h2)"
proof (cases "m1 h1")
  case (Inl eg)
  obtain e g1 where "eg = (e, g1)" by (cases eg)
  with Inl assms(1) show ?thesis
    by (auto simp: relP_def bindP_def sameUpToIdentity_def)
next
  case (Inr xg)
  obtain x1 g1 where "xg = (x1, g1)" by (cases xg)
  with Inr assms(1) obtain x2 g2 where "m2 h2 = Inr (x2, g2)" and "V g1 g2 x1 x2"
    by (auto simp: relP_def)
  with Inr \<open>xg = (x1, g1)\<close> assms(2)[of g1 g2 x1 x2] show ?thesis
    by (simp add: bindP_def)
qed

lemma corr_shape:
  assumes "corr R h1 h2 v w"
  shows "(v = w \<and> (\<forall>a. v \<noteq> Ref a)) \<or> (\<exists>a b. v = Ref a \<and> w = Ref b \<and> R a b)"
  using assms by (cases rule: corr.cases) auto

lemma corr_propOf:
  assumes "corr R h1 h2 (Ref a) (Ref b)"
  shows "corr R h1 h2 (propOf h1 a k) (propOf h2 b k)"
  using assms
proof (cases rule: corr.cases)
  case corr_prim
  then show ?thesis by simp
next
  case corr_Ref
  show ?thesis
  proof (cases "h1 a k")
    case None
    with corr_Ref(2) have "h2 b k = None" by (metis domIff)
    with None show ?thesis by (simp add: propOf_def corr.corr_prim)
  next
    case (Some p)
    with corr_Ref(2) obtain q where q: "h2 b k = Some q" by (metis domIff option.exhaust)
    from corr_Ref(4)[OF Some q] Some q show ?thesis by (simp add: propOf_def)
  qed
qed

lemma corr_deletable:
  assumes "corr R h1 h2 (Ref a) (Ref b)"
  shows "deletable h1 a k = deletable h2 b k"
  using assms
proof (cases rule: corr.cases)
  case corr_prim
  then show ?thesis by simp
next
  case corr_Ref
  show ?thesis
  proof (cases "h1 a k")
    case None
    with corr_Ref(2) have "h2 b k = None" by (metis domIff)
    with None show ?thesis by (simp add: deletable_def)
  next
    case (Some p)
    with corr_Ref(2) obtain q where q: "h2 b k = Some q" by (metis domIff option.exhaust)
    from corr_Ref(3)[OF Some q] Some q show ?thesis by (simp add: deletable_def)
  qed
qed

lemma corr_textOf:
  assumes "corr R h1 h2 v w"
  shows "textOf h1 v = textOf h2 w"
  using assms
proof (cases rule: corr.cases)
  case corr_prim
  then show ?thesis by (cases v) (simp_all add: textOf_def)
next
  case (corr_Ref a b)
  then show ?thesis by (simp add: textOf_def)
qed

lemma corr_delete:
  assumes "oneToOne R" and "R a b" and "corr R h1 h2 v w"
  shows "corr R (h1(a := (h1 a)(k := None))) (h2(b := (h2 b)(k := None))) v w"
  using assms(3)
proof (induction rule: corr.induct)
  case (corr_prim v)
  then show ?case by (rule corr.corr_prim)
next
  case (corr_Ref a' b')
  from assms(1,2) corr_Ref(1) have eq: "a' = a \<longleftrightarrow> b' = b"
    unfolding oneToOne_def by blast
  show ?case
  proof (rule corr.corr_Ref)
    show "R a' b'" by fact
    show "dom ((h1(a := (h1 a)(k := None))) a') = dom ((h2(b := (h2 b)(k := None))) b')"
      using eq corr_Ref(2) by auto
  next
    fix k' p q
    assume "(h1(a := (h1 a)(k := None))) a' k' = Some p"
      and "(h2(b := (h2 b)(k := None))) b' k' = Some q"
    then have "h1 a' k' = Some p" and "h2 b' k' = Some q"
      by (auto split: if_splits)
    then show "configurable p = configurable q"
      by (rule corr_Ref.hyps(3))
  next
    fix k' p q
    assume "(h1(a := (h1 a)(k := None))) a' k' = Some p"
      and "(h2(b := (h2 b)(k := None))) b' k' = Some q"
    then have "h1 a' k' = Some p" and "h2 b' k' = Some q"
      by (auto split: if_splits)
    then show "corr R (h1(a := (h1 a)(k := None))) (h2(b := (h2 b)(k := None)))
        (propValue p) (propValue q)"
      by (rule corr_Ref.IH)
  qed
qed

lemma rel_getProp:
  assumes "corr R h1 h2 v w"
  shows "relP (\<lambda>g1 g2 x1 x2. g1 = h1 \<and> g2 = h2 \<and> corr R h1 h2 x1 x2) h1 h2 (getProp v k) (getProp w k)"
proof -
  from corr_shape[OF assms] show ?thesis
  proof
    assume "v = w \<and> (\<forall>a. v \<noteq> Ref a)"
    then show ?thesis
      by (cases v) (auto simp: relP_def getProp_def returnP_def throwP_def intro: corr_prim)
  next
    assume "\<exists>a b. v = Ref a \<and> w = Ref b \<and> R a b"
    then obtain a b where "v = Ref a" "w = Ref b" by blast
    with assms corr_propOf[of R h1 h2 a b k] show ?thesis
      by (simp add: relP_def getProp_def)
  qed
qed

lemma rel_plusStr:
  assumes "corr R h1 h2 v w"
  shows "relP (\<lambda>g1 g2 x1 x2. g1 = h1 \<and> g2 = h2 \<and> x1 = x2) h1 h2 (plusStr s v) (plusStr s w)"
  using corr_textOf[OF assms]
  by (auto simp: relP_def plusStr_def toStr_def bindP_def returnP_def split: option.splits)

lemma rel_deleteProp:
  assumes "oneToOne R" and "corr R h1 h2 v w"
  shows "relP (\<lambda>g1 g2 x1 x2. \<forall>x y. corr R h1 h2 x y \<longrightarrow> corr R g1 g2 x y) h1 h2
           (deleteProp v k) (deleteProp w k)"
proof -
  from corr_shape[OF assms(2)] show ?thesis
  proof
    assume "v = w \<and> (\<forall>a. v \<noteq> Ref a)"
    then show ?thesis
      by (cases v) (auto simp: relP_def deleteProp_def returnP_def throwP_def)
  next
    assume "\<exists>a b. v = Ref a \<and> w = Ref b \<and> R a b"
    then obtain a b where ab: "v = Ref a" "w = Ref b" "R a b" by blast
    with assms(2) have "deletable h1 a k = deletable h2 b k"
      by (simp add: corr_deletable)
    with ab corr_delete[OF assms(1) \<open>R a b\<close>] show ?thesis
      by (simp add: relP_def deleteProp_def)
  qed
qed

lemma same_call:
  assumes "corrRequest R g1 g2 d1 d2"
  shows "sameUpToIdentity this cb R (Inr (makeRequest this d1 cb g1)) (Inr (makeRequest this d2 cb g2))"
  using assms unfolding sameUpToIdentity_def by blast

lemma same_getSprint:
  assumes "corr R h1 h2 o1 o2"
  shows "sameUpToIdentity this cb R (getSprint this o1 cb h1) (getSprint this o2 cb h2)"
  unfolding getSprint_def
  apply (rule same_bind[OF rel_getProp[OF assms]], elim conjE, hypsubst)
  apply (rule same_bind[OF rel_plusStr], assumption, elim conjE, hypsubst)
  apply (rule same_bind[OF rel_getProp[OF assms]], elim conjE, hypsubst)
  apply (rule same_bind[OF rel_getProp[OF assms]], elim conjE, hypsubst)
  apply (rule same_bind[OF rel_getProp[OF assms]], elim conjE, hypsubst)
  apply (rule same_call)
  apply (simp add: corrRequest_def assms)
  done

lemma same_deleteSprint:
  assumes "corr R h1 h2 o1 o2"
  shows "sameUpToIdentity this cb R (deleteSprint this o1 cb h1) (deleteSprint this o2 cb h2)"
  unfolding deleteSprint_def
  apply (rule same_bind[OF rel_getProp[OF assms]], elim conjE, hypsubst)
  apply (rule same_bind[OF rel_plusStr], assumption, elim conjE, hypsubst)
  apply (rule same_bind[OF rel_getProp[OF assms]], elim conjE, hypsubst)
  apply (rule same_bind[OF rel_getProp[OF assms]], elim conjE, hypsubst)
  apply (rule same_bind[OF rel_getProp[OF assms]], elim conjE, hypsubst)
  apply (rule same_call)
  apply (simp add: corrRequest_def assms)
  done

lemma same_getSprintIssues:
  assumes "corr R h1 h2 o1 o2"
  shows "sameUpToIdentity this cb R (getSprintIssues this o1 cb h1) (getSprintIssues this o2 cb h2)"
  unfolding getSprintIssues_def
  apply (rule same_bind[OF rel_getProp[OF assms]], elim conjE, hypsubst)
  apply (rule same_bind[OF rel_plusStr], assumption, elim conjE, hypsubst)
  apply (rule same_bind[OF rel_getProp[OF assms]], elim conjE, hypsubst)
  apply (rule same_bind[OF rel_getProp[OF assms]], elim conjE, hypsubst)
  apply (rule same_bind[OF rel_getProp[OF assms]], elim conjE, hypsubst)
  apply (rule same_bind[OF rel_getProp[OF assms]], elim conjE, hypsubst)
  apply (rule same_bind[OF rel_getProp[OF assms]], elim conjE, hypsubst)
  apply (rule same_bind[OF rel_getProp[OF assms]], elim conjE, hypsubst)
  apply (rule same_call)
  apply (simp add: corrRequest_def assms)
  done

lemma same_moveSprintIssues:
  assumes "oneToOne R" and "corr R h1 h2 o1 o2"
  shows "sameUpToIdentity this cb R (moveSprintIssues this o1 cb h1) (moveSprintIssues this o2 cb h2)"
  unfolding moveSprintIssues_def
  apply (rule same_bind[OF rel_getProp[OF assms(2)]], elim conjE, hypsubst)
  apply (rule same_bind[OF rel_deleteProp[OF assms]])
  apply (rule same_bind[OF rel_plusStr], blast, elim conjE, hypsubst)
  apply (rule same_call)
  apply (simp add: corrRequest_def assms)
  done

lemma same_createSprint:
  assumes "parseOptions this o1 Undefined h1 = Inr (r1, g1)"
    and "parseOptions this o2 Undefined h2 = Inr (r2, g2)"
    and "corr R g1 g2 r1 r2"
  shows "sameUpToIdentity this cb R (createSprint this o1 cb h1) (createSprint this o2 cb h2)"
  unfolding createSprint_def
  apply (simp only: bindP_known[OF assms(1)] bindP_known[OF assms(2)])
  apply (rule same_bind[OF rel_getProp[OF assms(3)]], elim conjE, hypsubst)
  apply (rule same_bind[OF rel_getProp[OF assms(3)]], elim conjE, hypsubst)
  apply (rule same_call)
  apply (simp add: corrRequest_def)
  done

lemma same_updateSprint:
  assumes "oneToOne R"
    and "parseOptions this o1 (Str ''sprint'') h1 = Inr (r1, g1)"
    and "parseOptions this o2 (Str ''sprint'') h2 = Inr (r2, g2)"
    and "corr R g1 g2 r1 r2"
  shows "sameUpToIdentity this cb R (updateSprint this o1 cb h1) (updateSprint this o2 cb h2)"
  unfolding updateSprint_def
  apply (simp only: bindP_known[OF assms(2)] bindP_known[OF assms(3)])
  apply (rule same_bind[OF rel_getProp[OF assms(4)]], elim conjE, hypsubst)
  apply (rule same_bind[OF rel_getProp], assumption, elim conjE, hypsubst)
  apply (rule same_bind[OF rel_getProp[OF assms(4)]], elim conjE, hypsubst)
  apply (rule same_bind[OF rel_deleteProp[OF assms(1)]], assumption)
  apply (rule same_bind[OF rel_plusStr], blast, elim conjE, hypsubst)
  apply (rule same_bind[OF rel_getProp], use assms(4) in blast, elim conjE, hypsubst)
  apply (rule same_bind[OF rel_getProp], use assms(4) in blast, elim conjE, hypsubst)
  apply (rule same_call)
  apply (simp add: corrRequest_def)
  done


lemma same_partiallyUpdateSprint:
  assumes "oneToOne R"
    and "parseOptions this o1 (Str ''sprint'') h1 = Inr (r1, g1)"
    and "parseOptions this o2 (Str ''sprint'') h2 = Inr (r2, g2)"
    and "corr R g1 g2 r1 r2"
  shows "sameUpToIdentity this cb R (partiallyUpdateSprint this o1 cb h1)
           (partiallyUpdateSprint this o2 cb h2)"
  unfolding partiallyUpdateSprint_def
  apply (simp only: bindP_known[OF assms(2)] bindP_known[OF assms(3)])
  apply (rule same_bind[OF rel_getProp[OF assms(4)]], elim conjE, hypsubst)
  apply (rule same_bind[OF rel_getProp], assumption, elim conjE, hypsubst)
  apply (rule same_bind[OF rel_getProp[OF assms(4)]], elim conjE, hypsubst)
  apply (rule same_bind[OF rel_deleteProp[OF assms(1)]], assumption)
  apply (rule same_bind[OF rel_plusStr], blast, elim conjE, hypsubst)
  apply (rule same_bind[OF rel_getProp], use assms(4) in blast, elim conjE, hypsubst)
  apply (rule same_bind[OF rel_getProp], use assms(4) in blast, elim conjE, hypsubst)
  apply (rule same_call)
  apply (simp add: corrRequest_def)
  done

lemma same_swapSprint:
  assumes "oneToOne R"
    and "parseOptions this o1 (Str ''swapped'') h1 = Inr (r1, g1)"
    and "parseOptions this o2 (Str ''swapped'') h2 = Inr (r2, g2)"
    and "corr R g1 g2 r1 r2"
  shows "sameUpToIdentity this cb R (swapSprint this o1 cb h1) (swapSprint this o2 cb h2)"
  unfolding swapSprint_def
  apply (simp only: bindP_known[OF assms(2)] bindP_known[OF assms(3)])
  apply (rule same_bind[OF rel_getProp[OF assms(4)]], elim conjE, hypsubst)
  apply (rule same_bind[OF rel_getProp], assumption, elim conjE, hypsubst)
  apply (rule same_bind[OF rel_getProp[OF assms(4)]], elim conjE, hypsubst)
  apply (rule same_bind[OF rel_deleteProp[OF assms(1)]], assumption)
  apply (rule same_bind[OF rel_plusStr], blast, elim conjE, hypsubst)
  apply (rule same_bind[OF rel_getProp], use assms(4) in blast, elim conjE, hypsubst)
  apply (rule same_bind[OF rel_getProp], use assms(4) in blast, elim conjE, hypsubst)
  apply (rule same_call)
  apply (simp add: corrRequest_def)
  done

text \<open>
  Claim C5. Building a descriptor from two structurally identical options objects, which may
  be distinct objects in the same or in different stores, gives the same outcome twice up to
  object identity: both runs throw the same error, or both call the transport with the same
  callback and with descriptors that are equal in url, method and flags and alike, up to
  the pairing of the objects, in query, body and suppliedOptions. For the operations that go
  through \<^verbatim>\<open>parseOptions\<close>, which is a parameter here, the structure that counts is the
  one it returns: the hypothesis is that the two parsed results are alike.
\<close>

theorem construction_depends_on_structure_only:
  assumes "oneToOne R"
  shows "(m \<in> {GetSprint, DeleteSprint, GetSprintIssues, MoveSprintIssues} \<and>
          corr R h1 h2 o1 o2 \<longrightarrow>
            sameUpToIdentity this cb R (AgileSprintClient this m o1 cb h1)
              (AgileSprintClient this m o2 cb h2)) \<and>
         (m' \<in> {CreateSprint, UpdateSprint, PartiallyUpdateSprint, SwapSprint} \<and>
          parseOptions this p1 (parseName m') k1 = Inr (r1, g1) \<and>
          parseOptions this p2 (parseName m') k2 = Inr (r2, g2) \<and>
          corr R g1 g2 r1 r2 \<longrightarrow>
            sameUpToIdentity this cb R (AgileSprintClient this m' p1 cb k1)
              (AgileSprintClient this m' p2 cb k2))"
proof (intro conjI impI)
  assume a: "m \<in> {GetSprint, DeleteSprint, GetSprintIssues, MoveSprintIssues} \<and>
          corr R h1 h2 o1 o2"
  then have c: "corr R h1 h2 o1 o2" by simp
  from a consider "m = GetSprint" | "m = DeleteSprint" | "m = GetSprintIssues"
    | "m = MoveSprintIssues" by auto
  then show "sameUpToIdentity this cb R (AgileSprintClient this m o1 cb h1)
              (AgileSprintClient this m o2 cb h2)"
  proof cases
    case 1
    then show ?thesis by (simp add: AgileSprintClient_def same_getSprint[OF c])
  next
    case 2
    then show ?thesis by (simp add: AgileSprintClient_def same_deleteSprint[OF c])
  next
    case 3
    then show ?thesis by (simp add: AgileSprintClient_def same_getSprintIssues[OF c])
  next
    case 4
    then show ?thesis by (simp add: AgileSprintClient_def same_moveSprintIssues[OF assms c])
  qed
next
  assume a: "m' \<in> {CreateSprint, UpdateSprint, PartiallyUpdateSprint, SwapSprint} \<and>
          parseOptions this p1 (parseName m') k1 = Inr (r1, g1) \<and>
          parseOptions this p2 (parseName m') k2 = Inr (r2, g2) \<and>
          corr R g1 g2 r1 r2"
  then have c: "corr R g1 g2 r1 r2" by simp
  from a consider "m' = CreateSprint" | "m' = UpdateSprint" | "m' = PartiallyUpdateSprint"
    | "m' = SwapSprint" by auto
  then show "sameUpToIdentity this cb R (AgileSprintClient this m' p1 cb k1)
              (AgileSprintClient this m' p2 cb k2)"
  proof cases
    case 1
    with a have "parseOptions this p1 Undefined k1 = Inr (r1, g1)"
      "parseOptions this p2 Undefined k2 = Inr (r2, g2)" by (simp_all add: parseName_def)
    from same_createSprint[OF this c] 1 show ?thesis by (simp add: AgileSprintClient_def)
  next
    case 2
    with a have "parseOptions this p1 (Str ''sprint'') k1 = Inr (r1, g1)"
      "parseOptions this p2 (Str ''sprint'') k2 = Inr (r2, g2)" by (simp_all add: parseName_def)
    from same_updateSprint[OF assms this c] 2 show ?thesis by (simp add: AgileSprintClient_def)
  next
    case 3
    with a have "parseOptions this p1 (Str ''sprint'') k1 = Inr (r1, g1)"
      "parseOptions this p2 (Str ''sprint'') k2 = Inr (r2, g2)" by (simp_all add: parseName_def)
    from same_partiallyUpdateSprint[OF assms this c] 3 show ?thesis
      by (simp add: AgileSprintClient_def)
  next
    case 4
    with a have "parseOptions this p1 (Str ''swapped'') k1 = Inr (r1, g1)"
      "parseOptions this p2 (Str ''swapped'') k2 = Inr (r2, g2)" by (simp_all add: parseName_def)
    from same_swapSprint[OF assms this c] 4 show ?thesis by (simp add: AgileSprintClient_def)
  qed
qed


lemma example_oneToOne: "oneToOne examplePairing"
  unfolding oneToOne_def examplePairing_def by auto

lemma example_corr_options: "corr examplePairing exampleStore exampleStore (Ref 4) (Ref 5)"
  by (rule corr_Ref)
     (auto simp: examplePairing_def exampleStore_def plain_def intro: corr_prim
           split: if_splits)

lemma example_corr_payload:
  "corr examplePairing (parsedFrom 2 (Ref 3)) (parsedFrom 8 (Ref 9)) (Ref 3) (Ref 9)"
  by (rule corr_Ref)
     (auto simp: examplePairing_def parsedFrom_def exampleStore_def plain_def intro: corr_prim
           split: if_splits)

lemma example_corr_supplied:
  "corr examplePairing (parsedFrom 2 (Ref 3)) (parsedFrom 8 (Ref 9)) (Ref 2) (Ref 8)"
  apply (rule corr_Ref)
     apply (simp add: examplePairing_def)
    apply (simp add: parsedFrom_def exampleStore_def plain_def)
   apply (auto simp: parsedFrom_def exampleStore_def plain_def split: if_splits)[1]
  using example_corr_payload
  apply (auto simp: parsedFrom_def exampleStore_def plain_def split: if_splits)
  done

lemma example_corr_result:
  "corr examplePairing (parsedFrom 2 (Ref 3)) (parsedFrom 8 (Ref 9)) (Ref 0) (Ref 0)"
  apply (rule corr_Ref)
     apply (simp add: examplePairing_def)
    apply (simp add: parsedFrom_def plain_def)
   apply (auto simp: parsedFrom_def plain_def split: if_splits)[1]
  using example_corr_payload example_corr_supplied
  apply (auto simp: parsedFrom_def plain_def split: if_splits)
  done

lemma example_parse_copy:
  "parseOptions exampleClient (Ref 8) name exampleStore = Inr (Ref 0, parsedFrom 8 (Ref 9))"
  by (simp add: exampleClient_def parsedFrom_def) (simp add: exampleStore_def propOf_def plain_def)

lemma example_parse_orig:
  "parseOptions exampleClient (Ref 2) name exampleStore = Inr (Ref 0, parsedFrom 2 (Ref 3))"
  by (simp add: exampleClient_def parsedFrom_def) (simp add: exampleStore_def propOf_def plain_def)

theorem construction_depends_on_structure_only_witness:
  "oneToOne examplePairing \<and>
   MoveSprintIssues \<in> {GetSprint, DeleteSprint, GetSprintIssues, MoveSprintIssues} \<and>
   corr examplePairing exampleStore exampleStore (Ref 4) (Ref 5) \<and>
   sameUpToIdentity exampleClient None examplePairing
     (AgileSprintClient exampleClient MoveSprintIssues (Ref 4) None exampleStore)
     (AgileSprintClient exampleClient MoveSprintIssues (Ref 5) None exampleStore) \<and>
   UpdateSprint \<in> {CreateSprint, UpdateSprint, PartiallyUpdateSprint, SwapSprint} \<and>
   parseOptions exampleClient (Ref 2) (parseName UpdateSprint) exampleStore =
     Inr (Ref 0, parsedFrom 2 (Ref 3)) \<and>
   parseOptions exampleClient (Ref 8) (parseName UpdateSprint) exampleStore =
     Inr (Ref 0, parsedFrom 8 (Ref 9)) \<and>
   corr examplePairing (parsedFrom 2 (Ref 3)) (parsedFrom 8 (Ref 9)) (Ref 0) (Ref 0) \<and>
   sameUpToIdentity exampleClient None examplePairing
     (AgileSprintClient exampleClient UpdateSprint (Ref 2) None exampleStore)
     (AgileSprintClient exampleClient UpdateSprint (Ref 8) None exampleStore)"
  using construction_depends_on_structure_only [OF example_oneToOne,
      where m = MoveSprintIssues and ?h1.0 = exampleStore and ?h2.0 = exampleStore
        and ?o1.0 = "Ref 4" and ?o2.0 = "Ref 5" and this = exampleClient and cb = None
        and m' = UpdateSprint and ?p1.0 = "Ref 2" and ?p2.0 = "Ref 8"
        and ?k1.0 = exampleStore and ?k2.0 = exampleStore
        and ?r1.0 = "Ref 0" and ?r2.0 = "Ref 0"
        and ?g1.0 = "parsedFrom 2 (Ref 3)" and ?g2.0 = "parsedFrom 8 (Ref 9)"]
    example_oneToOne example_corr_options example_corr_result
    example_parse_orig example_parse_copy
  by simp

section \<open>Options without identifier\<close>

lemma undefined_text: "h a ''sprintId'' = None \<Longrightarrow> textOf h (propOf h a ''sprintId'') = Some ''undefined''"
  by (simp add: propOf_def textOf_def)

lemma reads_null:
  assumes "m \<in> {GetSprint, DeleteSprint, GetSprintIssues, MoveSprintIssues}"
    and "opts = Undefined \<or> opts = Null"
  shows "AgileSprintClient this m opts cb h = Inl (TypeError, h)"
  using assms
  by (auto simp: AgileSprintClient_def getSprint_def deleteSprint_def getSprintIssues_def
      moveSprintIssues_def)

lemma payload_null:
  assumes "m \<in> {UpdateSprint, PartiallyUpdateSprint, SwapSprint}"
    and "parseOptions this opts (parseName m) h = Inr (Ref r, g)"
    and "propOf g r ''body'' = Undefined \<or> propOf g r ''body'' = Null"
  shows "AgileSprintClient this m opts cb h = Inl (TypeError, g)"
  using assms
  by (auto simp: AgileSprintClient_def updateSprint_def partiallyUpdateSprint_def
      swapSprint_def parseName_def bindP_known)

text \<open>
  Claim C4 says that an operation whose path needs the identifier signals a failure at
  construction when the options (or the parsed payload) do not contain it. The code has no
  such check. getSprint on the options \<^verbatim>\<open>{maxResults: 50}\<close> throws nothing: it calls the
  transport with the url of the path \<^verbatim>\<open>/sprint/undefined\<close>.
\<close>

theorem missing_identifier_counterexample:
  "exampleStore 6 ''sprintId'' = None \<and>
   getSprint exampleClient (Ref 6) None exampleStore =
     Inr (\<lparr> uri = ''https://jira.example.com/rest/agile/1.0/sprint/undefined'',
            method = ''GET'', followAllRedirects = True, json = True,
            suppliedOptions = Ref 6,
            qs = Some [''filter'' \<mapsto> Undefined, ''startAt'' \<mapsto> Undefined,
                       ''maxResults'' \<mapsto> Num (safeInt 50)],
            body = None \<rparr>, None, exampleStore)"
  by (simp add: getSprint_def exampleClient_def, simp add: exampleStore_def propOf_def textOf_def plain_def)


text \<open>
  Claim C4, as the code has it. When the options object (for get, delete, list and move) or
  the parsed payload object (for the two updates and swap) has no \<^verbatim>\<open>sprintId\<close> key, the
  operation signals no failure: it hands the transport a descriptor whose url is the
  resolver applied to the operation's path with the text \<^verbatim>\<open>undefined\<close> in the place of the
  identifier. A TypeError is thrown at construction when there is no object to read from:
  when the options value, or the parsed payload, is \<^verbatim>\<open>undefined\<close> or \<^verbatim>\<open>null\<close>.
\<close>

theorem missing_identifier_gives_undefined_path:
  "(m1 \<in> {GetSprint, DeleteSprint, GetSprintIssues, MoveSprintIssues} \<and>
    h a ''sprintId'' = None \<longrightarrow>
      (\<exists>d h'. AgileSprintClient this m1 (Ref a) cb h = Inr (makeRequest this d cb h') \<and>
         uri d = buildAgileURL this (specPath m1 ''undefined''))) \<and>
   (m2 \<in> {UpdateSprint, PartiallyUpdateSprint, SwapSprint} \<and>
    parseOptions this opts (parseName m2) h = Inr (Ref r, g) \<and>
    propOf g r ''body'' = Ref b \<and> g b ''sprintId'' = None \<longrightarrow>
      (\<exists>d h'. AgileSprintClient this m2 opts cb h = Inr (makeRequest this d cb h') \<and>
         uri d = buildAgileURL this (specPath m2 ''undefined''))) \<and>
   (m3 \<in> {GetSprint, DeleteSprint, GetSprintIssues, MoveSprintIssues} \<and>
    (opts3 = Undefined \<or> opts3 = Null) \<longrightarrow>
      AgileSprintClient this m3 opts3 cb h = Inl (TypeError, h)) \<and>
   (m4 \<in> {UpdateSprint, PartiallyUpdateSprint, SwapSprint} \<and>
    parseOptions this opts4 (parseName m4) h = Inr (Ref r4, g4) \<and>
    (propOf g4 r4 ''body'' = Undefined \<or> propOf g4 r4 ''body'' = Null) \<longrightarrow>
      AgileSprintClient this m4 opts4 cb h = Inl (TypeError, g4))"
proof (intro conjI impI)
  assume a: "m1 \<in> {GetSprint, DeleteSprint, GetSprintIssues, MoveSprintIssues} \<and>
    h a ''sprintId'' = None"
  then have "textOf h (propOf h a ''sprintId'') = Some ''undefined''"
    and "deletable h a ''sprintId''"
    by (simp_all add: undefined_text deletable_None)
  with a reads_table[of m1 h a "''undefined''" this cb]
  show "\<exists>d h'. AgileSprintClient this m1 (Ref a) cb h = Inr (makeRequest this d cb h') \<and>
         uri d = buildAgileURL this (specPath m1 ''undefined'')"
    by blast
next
  assume a: "m2 \<in> {UpdateSprint, PartiallyUpdateSprint, SwapSprint} \<and>
    parseOptions this opts (parseName m2) h = Inr (Ref r, g) \<and>
    propOf g r ''body'' = Ref b \<and> g b ''sprintId'' = None"
  then have t: "textOf g (propOf g b ''sprintId'') = Some ''undefined''"
    and l: "deletable g b ''sprintId''"
    by (simp_all add: undefined_text deletable_None)
  from a have "m2 \<in> {UpdateSprint, PartiallyUpdateSprint, SwapSprint}"
    and "parseOptions this opts (parseName m2) h = Inr (Ref r, g)"
    and "propOf g r ''body'' = Ref b"
    by simp_all
  from payload_table[OF this t l]
  show "\<exists>d h'. AgileSprintClient this m2 opts cb h = Inr (makeRequest this d cb h') \<and>
         uri d = buildAgileURL this (specPath m2 ''undefined'')"
    by blast
next
  assume "m3 \<in> {GetSprint, DeleteSprint, GetSprintIssues, MoveSprintIssues} \<and>
    (opts3 = Undefined \<or> opts3 = Null)"
  then show "AgileSprintClient this m3 opts3 cb h = Inl (TypeError, h)"
    by (intro reads_null) simp_all
next
  assume "m4 \<in> {UpdateSprint, PartiallyUpdateSprint, SwapSprint} \<and>
    parseOptions this opts4 (parseName m4) h = Inr (Ref r4, g4) \<and>
    (propOf g4 r4 ''body'' = Undefined \<or> propOf g4 r4 ''body'' = Null)"
  then show "AgileSprintClient this m4 opts4 cb h = Inl (TypeError, g4)"
    by (intro payload_null[where r = r4]) simp_all
qed


lemma example_parse_without_identifier:
  "parseOptions exampleClient (Ref 7) name exampleStore = Inr (Ref 0, parsedFrom 7 (Ref 6))"
  by (simp add: exampleClient_def parsedFrom_def) (simp add: exampleStore_def propOf_def plain_def)

lemma example_parse_without_payload:
  "parseOptions exampleClient (Ref 6) name exampleStore = Inr (Ref 0, parsedFrom 6 Undefined)"
  by (simp add: exampleClient_def parsedFrom_def) (simp add: exampleStore_def propOf_def plain_def)

theorem missing_identifier_gives_undefined_path_witness:
  "GetSprint \<in> {GetSprint, DeleteSprint, GetSprintIssues, MoveSprintIssues} \<and>
   exampleStore 6 ''sprintId'' = None \<and>
   (\<exists>d h'. AgileSprintClient exampleClient GetSprint (Ref 6) None exampleStore =
              Inr (makeRequest exampleClient d None h') \<and>
      uri d = ''https://jira.example.com/rest/agile/1.0/sprint/undefined'') \<and>
   UpdateSprint \<in> {UpdateSprint, PartiallyUpdateSprint, SwapSprint} \<and>
   parseOptions exampleClient (Ref 7) (parseName UpdateSprint) exampleStore =
     Inr (Ref 0, parsedFrom 7 (Ref 6)) \<and>
   propOf (parsedFrom 7 (Ref 6)) 0 ''body'' = Ref 6 \<and>
   parsedFrom 7 (Ref 6) 6 ''sprintId'' = None \<and>
   (\<exists>d h'. AgileSprintClient exampleClient UpdateSprint (Ref 7) None exampleStore =
              Inr (makeRequest exampleClient d None h') \<and>
      uri d = ''https://jira.example.com/rest/agile/1.0/sprint/undefined'') \<and>
   GetSprintIssues \<in> {GetSprint, DeleteSprint, GetSprintIssues, MoveSprintIssues} \<and>
   AgileSprintClient exampleClient GetSprintIssues Undefined None exampleStore =
     Inl (TypeError, exampleStore) \<and>
   SwapSprint \<in> {UpdateSprint, PartiallyUpdateSprint, SwapSprint} \<and>
   parseOptions exampleClient (Ref 6) (parseName SwapSprint) exampleStore =
     Inr (Ref 0, parsedFrom 6 Undefined) \<and>
   propOf (parsedFrom 6 Undefined) 0 ''body'' = Undefined \<and>
   AgileSprintClient exampleClient SwapSprint (Ref 6) None exampleStore =
     Inl (TypeError, parsedFrom 6 Undefined)"
proof -
  have i: "exampleStore 6 ''sprintId'' = None" "parsedFrom 7 (Ref 6) 6 ''sprintId'' = None"
    by (simp_all add: parsedFrom_def exampleStore_def plain_def)
  have b: "propOf (parsedFrom 7 (Ref 6)) 0 ''body'' = Ref 6"
    "propOf (parsedFrom 6 Undefined) 0 ''body'' = Undefined"
    by (simp_all add: parsedFrom_def propOf_def plain_def)
  have u: "buildAgileURL exampleClient = (\<lambda>path. ''https://jira.example.com/rest/agile/1.0'' @ path)"
    by (simp add: exampleClient_def)
  from missing_identifier_gives_undefined_path [where this = exampleClient and cb = None
      and h = exampleStore and ?m1.0 = GetSprint and a = 6
      and ?m2.0 = UpdateSprint and opts = "Ref 7" and r = 0 and g = "parsedFrom 7 (Ref 6)"
      and b = 6 and ?m3.0 = GetSprintIssues and ?opts3.0 = Undefined
      and ?m4.0 = SwapSprint and ?opts4.0 = "Ref 6" and ?r4.0 = 0
      and ?g4.0 = "parsedFrom 6 Undefined"]
    i b example_parse_without_identifier example_parse_without_payload
  show ?thesis
    by (simp add: u specPath_def)
qed

section \<open>The identifier is taken out of the body\<close>

lemma payload_locked:
  assumes "m \<in> {UpdateSprint, PartiallyUpdateSprint, SwapSprint}"
    and "parseOptions this opts (parseName m) h = Inr (Ref r, g)"
    and "propOf g r ''body'' = Ref b"
    and "\<not> deletable g b ''sprintId''"
  shows "AgileSprintClient this m opts cb h = Inl (TypeError, g)"
proof -
  from assms(1) consider "m = UpdateSprint" | "m = PartiallyUpdateSprint" | "m = SwapSprint"
    by auto
  then show ?thesis
  proof cases
    case 1
    with assms(2) have "parseOptions this opts (Str ''sprint'') h = Inr (Ref r, g)"
      by (simp add: parseName_def)
    from updateSprint_obj_locked[OF this assms(3,4)] 1 show ?thesis
      by (simp add: AgileSprintClient_def)
  next
    case 2
    with assms(2) have "parseOptions this opts (Str ''sprint'') h = Inr (Ref r, g)"
      by (simp add: parseName_def)
    from partiallyUpdateSprint_obj_locked[OF this assms(3,4)] 2 show ?thesis
      by (simp add: AgileSprintClient_def)
  next
    case 3
    with assms(2) have "parseOptions this opts (Str ''swapped'') h = Inr (Ref r, g)"
      by (simp add: parseName_def)
    from swapSprint_obj_locked[OF this assms(3,4)] 3 show ?thesis
      by (simp add: AgileSprintClient_def)
  qed
qed

lemma payload_throws:
  assumes "m \<in> {UpdateSprint, PartiallyUpdateSprint, SwapSprint}"
    and "parseOptions this opts (parseName m) h = Inr (Ref r, g)"
    and "propOf g r ''body'' = Ref b"
    and "textOf g (propOf g b ''sprintId'') = None"
    and "deletable g b ''sprintId''"
  shows "AgileSprintClient this m opts cb h =
           Inl (TypeError, g(b := (g b)(''sprintId'' := None)))"
proof -
  from assms(1) consider "m = UpdateSprint" | "m = PartiallyUpdateSprint" | "m = SwapSprint"
    by auto
  then show ?thesis
  proof cases
    case 1
    with assms(2) have "parseOptions this opts (Str ''sprint'') h = Inr (Ref r, g)"
      by (simp add: parseName_def)
    from updateSprint_obj_throws[OF this assms(3-5)] 1 show ?thesis
      by (simp add: AgileSprintClient_def)
  next
    case 2
    with assms(2) have "parseOptions this opts (Str ''sprint'') h = Inr (Ref r, g)"
      by (simp add: parseName_def)
    from partiallyUpdateSprint_obj_throws[OF this assms(3-5)] 2 show ?thesis
      by (simp add: AgileSprintClient_def)
  next
    case 3
    with assms(2) have "parseOptions this opts (Str ''swapped'') h = Inr (Ref r, g)"
      by (simp add: parseName_def)
    from swapSprint_obj_throws[OF this assms(3-5)] 3 show ?thesis
      by (simp add: AgileSprintClient_def)
  qed
qed

lemma move_strips:
  assumes "textOf h (propOf h a ''sprintId'') = Some t" and "deletable h a ''sprintId''"
  shows "\<exists>d h'. moveSprintIssues this (Ref a) cb h = Inr (makeRequest this d cb h') \<and>
           body d = Some (Ref a) \<and> strippedOf h a h'"
  unfolding moveSprintIssues_obj[OF assms]
  by (intro exI conjI, rule refl) (simp, rule strippedOf_delete)

text \<open>
  Claim C1. For the write operations that carry the sprint identifier inside the payload
  (updateSprint, partiallyUpdateSprint, moveSprintIssues, swapSprint): the body of every
  descriptor they hand to the transport is the payload object itself, and in the store in
  which the transport is called that object has no \<^verbatim>\<open>sprintId\<close> key while every other
  key of it, and every other object, is as it was. The payload is the options object for
  moveSprintIssues and the object that \<^verbatim>\<open>parseOptions\<close> returned as \<^verbatim>\<open>result.body\<close>
  for the other three. This holds of every descriptor produced (second and fourth part),
  and one is produced whenever the identifier may be deleted and has a text to put into the
  path (first and third part); in the other cases the operation throws and there is no
  descriptor.
\<close>

theorem identifier_removed_from_body:
  "(textOf h (propOf h a ''sprintId'') = Some t1 \<and> deletable h a ''sprintId'' \<longrightarrow>
      (\<exists>d h'. moveSprintIssues this (Ref a) cb h = Inr (makeRequest this d cb h') \<and>
         body d = Some (Ref a) \<and> strippedOf h a h')) \<and>
   (moveSprintIssues this (Ref a) cb h = Inr x1 \<longrightarrow>
      (\<exists>d h'. x1 = makeRequest this d cb h' \<and> body d = Some (Ref a) \<and> strippedOf h a h')) \<and>
   (m2 \<in> {UpdateSprint, PartiallyUpdateSprint, SwapSprint} \<and>
    parseOptions this opts2 (parseName m2) h = Inr (Ref r2, g2) \<and>
    propOf g2 r2 ''body'' = Ref b2 \<and>
    textOf g2 (propOf g2 b2 ''sprintId'') = Some t2 \<and> deletable g2 b2 ''sprintId'' \<longrightarrow>
      (\<exists>d h'. AgileSprintClient this m2 opts2 cb h = Inr (makeRequest this d cb h') \<and>
         body d = Some (Ref b2) \<and> strippedOf g2 b2 h')) \<and>
   (m3 \<in> {UpdateSprint, PartiallyUpdateSprint, SwapSprint} \<and>
    parseOptions this opts3 (parseName m3) h = Inr (Ref r3, g3) \<and>
    propOf g3 r3 ''body'' = Ref b3 \<and>
    AgileSprintClient this m3 opts3 cb h = Inr x3 \<longrightarrow>
      (\<exists>d h'. x3 = makeRequest this d cb h' \<and> body d = Some (Ref b3) \<and> strippedOf g3 b3 h'))"
proof (intro conjI impI)
  assume "textOf h (propOf h a ''sprintId'') = Some t1 \<and> deletable h a ''sprintId''"
  then show "\<exists>d h'. moveSprintIssues this (Ref a) cb h = Inr (makeRequest this d cb h') \<and>
         body d = Some (Ref a) \<and> strippedOf h a h'"
    by (intro move_strips) simp_all
next
  assume x: "moveSprintIssues this (Ref a) cb h = Inr x1"
  show "\<exists>d h'. x1 = makeRequest this d cb h' \<and> body d = Some (Ref a) \<and> strippedOf h a h'"
  proof (cases "deletable h a ''sprintId''")
    case False
    from moveSprintIssues_obj_locked[OF this, where this = this and cb = cb] x
    show ?thesis by simp
  next
    case True
    show ?thesis
    proof (cases "textOf h (propOf h a ''sprintId'')")
      case None
      from moveSprintIssues_obj_throws[OF this True, where this = this and cb = cb] x
      show ?thesis by simp
    next
      case (Some t)
      from move_strips[OF Some True, of this cb] x show ?thesis by auto
    qed
  qed
next
  assume a: "m2 \<in> {UpdateSprint, PartiallyUpdateSprint, SwapSprint} \<and>
    parseOptions this opts2 (parseName m2) h = Inr (Ref r2, g2) \<and>
    propOf g2 r2 ''body'' = Ref b2 \<and>
    textOf g2 (propOf g2 b2 ''sprintId'') = Some t2 \<and> deletable g2 b2 ''sprintId''"
  then have "m2 \<in> {UpdateSprint, PartiallyUpdateSprint, SwapSprint}"
    and "parseOptions this opts2 (parseName m2) h = Inr (Ref r2, g2)"
    and "propOf g2 r2 ''body'' = Ref b2"
    and "textOf g2 (propOf g2 b2 ''sprintId'') = Some t2"
    and "deletable g2 b2 ''sprintId''"
    by simp_all
  from payload_table[OF this]
  show "\<exists>d h'. AgileSprintClient this m2 opts2 cb h = Inr (makeRequest this d cb h') \<and>
         body d = Some (Ref b2) \<and> strippedOf g2 b2 h'"
    by blast
next
  assume a: "m3 \<in> {UpdateSprint, PartiallyUpdateSprint, SwapSprint} \<and>
    parseOptions this opts3 (parseName m3) h = Inr (Ref r3, g3) \<and>
    propOf g3 r3 ''body'' = Ref b3 \<and>
    AgileSprintClient this m3 opts3 cb h = Inr x3"
  then have m: "m3 \<in> {UpdateSprint, PartiallyUpdateSprint, SwapSprint}"
    and p: "parseOptions this opts3 (parseName m3) h = Inr (Ref r3, g3)"
    and b: "propOf g3 r3 ''body'' = Ref b3"
    and x: "AgileSprintClient this m3 opts3 cb h = Inr x3"
    by simp_all
  show "\<exists>d h'. x3 = makeRequest this d cb h' \<and> body d = Some (Ref b3) \<and> strippedOf g3 b3 h'"
  proof (cases "deletable g3 b3 ''sprintId''")
    case False
    from payload_locked[OF m p b this, where cb = cb] x show ?thesis by simp
  next
    case True
    show ?thesis
    proof (cases "textOf g3 (propOf g3 b3 ''sprintId'')")
      case None
      from payload_throws[OF m p b this True, where cb = cb] x show ?thesis by simp
    next
      case (Some t)
      from payload_table[OF m p b Some True, of cb] x show ?thesis by auto
    qed
  qed
qed

lemma example_updateSprint:
  "AgileSprintClient exampleClient UpdateSprint (Ref 2) None exampleStore =
     Inr (\<lparr> uri = ''https://jira.example.com/rest/agile/1.0/sprint/331'',
            method = ''PUT'', followAllRedirects = True, json = True,
            suppliedOptions = Ref 2, qs = None, body = Some (Ref 3) \<rparr>, None,
          parsedStore(3 := (parsedStore 3)(''sprintId'' := None)))"
  by (simp add: AgileSprintClient_def
        updateSprint_obj[OF example_parseOptions example_parsed_body example_parsed_text
          example_parsed_deletable])
     (simp add: exampleClient_def parsedStore_def parsedFrom_def propOf_def plain_def)

theorem identifier_removed_from_body_witness:
  "textOf exampleStore (propOf exampleStore 4 ''sprintId'') = Some ''7'' \<and>
   deletable exampleStore 4 ''sprintId'' \<and>
   (\<exists>d h'. moveSprintIssues exampleClient (Ref 4) None exampleStore =
              Inr (makeRequest exampleClient d None h') \<and>
      body d = Some (Ref 4) \<and> strippedOf exampleStore 4 h') \<and>
   UpdateSprint \<in> {UpdateSprint, PartiallyUpdateSprint, SwapSprint} \<and>
   parseOptions exampleClient (Ref 2) (parseName UpdateSprint) exampleStore =
     Inr (Ref 0, parsedStore) \<and>
   propOf parsedStore 0 ''body'' = Ref 3 \<and>
   textOf parsedStore (propOf parsedStore 3 ''sprintId'') = Some ''331'' \<and>
   deletable parsedStore 3 ''sprintId'' \<and>
   (\<exists>d h'. AgileSprintClient exampleClient UpdateSprint (Ref 2) None exampleStore =
              Inr (makeRequest exampleClient d None h') \<and>
      body d = Some (Ref 3) \<and> strippedOf parsedStore 3 h') \<and>
   (\<exists>x d h'. moveSprintIssues exampleClient (Ref 4) None exampleStore = Inr x \<and>
      x = makeRequest exampleClient d None h' \<and> body d = Some (Ref 4) \<and>
      strippedOf exampleStore 4 h') \<and>
   (\<exists>x d h'. AgileSprintClient exampleClient UpdateSprint (Ref 2) None exampleStore = Inr x \<and>
      x = makeRequest exampleClient d None h' \<and> body d = Some (Ref 3) \<and>
      strippedOf parsedStore 3 h')"
  using identifier_removed_from_body [where this = exampleClient and h = exampleStore
      and a = 4 and cb = None and ?t1.0 = "''7''"
      and ?x1.0 = "(\<lparr> uri = ''https://jira.example.com/rest/agile/1.0/sprint/7/issue'',
            method = ''POST'', followAllRedirects = True, json = True,
            suppliedOptions = Ref 4, qs = None, body = Some (Ref 4) \<rparr>, None,
          exampleStore(4 := (exampleStore 4)(''sprintId'' := None)))"
      and ?m2.0 = UpdateSprint and ?opts2.0 = "Ref 2" and ?r2.0 = 0 and ?g2.0 = parsedStore
      and ?b2.0 = 3 and ?t2.0 = "''331''"
      and ?m3.0 = UpdateSprint and ?opts3.0 = "Ref 2" and ?r3.0 = 0 and ?g3.0 = parsedStore
      and ?b3.0 = 3
      and ?x3.0 = "(\<lparr> uri = ''https://jira.example.com/rest/agile/1.0/sprint/331'',
            method = ''PUT'', followAllRedirects = True, json = True,
            suppliedOptions = Ref 2, qs = None, body = Some (Ref 3) \<rparr>, None,
          parsedStore(3 := (parsedStore 3)(''sprintId'' := None)))"]
    example_text_4 example_deletable_4 example_parseOptions example_parsed_body
    example_parsed_text example_parsed_deletable example_moveSprintIssues example_updateSprint
  by simp

section \<open>moveSprintIssues changes the caller's object\<close>

text \<open>
  Claim C7 says that for every options object moveSprintIssues deletes the \<^verbatim>\<open>sprintId\<close>
  key from the caller's object and uses the object as the body. The source is in strict
  mode, so this fails for an object whose \<^verbatim>\<open>sprintId\<close> is not configurable: on the frozen
  object \<^verbatim>\<open>Object.freeze({sprintId: "7", rankBeforeIssue: "ISS-9"})\<close> the
  \<^verbatim>\<open>delete\<close> throws a TypeError, the object keeps its key and the transport is not
  called.
\<close>

theorem frozen_options_counterexample:
  "exampleStore 10 ''sprintId'' = Some (Property (Str ''7'') False) \<and>
   moveSprintIssues exampleClient (Ref 10) None exampleStore = Inl (TypeError, exampleStore)"
proof -
  have "exampleStore 10 ''sprintId'' = Some (Property (Str ''7'') False)"
    by (simp add: exampleStore_def frozen_def)
  moreover from this have "\<not> deletable exampleStore 10 ''sprintId''"
    by (simp add: deletable_def)
  ultimately show ?thesis
    by (simp add: moveSprintIssues_obj_locked)
qed

text \<open>
  Claim C7, as the code has it. For every options object whose \<^verbatim>\<open>sprintId\<close> property is
  absent or configurable, moveSprintIssues changes the caller's own object: in the store the
  operation leaves, the \<^verbatim>\<open>sprintId\<close> key of that object is deleted, every other key of it
  keeps its value and no other object is touched; and the descriptor's body is a reference
  to this very object. The deletion happens before the path is built, so it has also
  happened when building the path throws. When \<^verbatim>\<open>sprintId\<close> is an own property that is
  not configurable, as in a frozen or sealed object, the operation throws a TypeError, every
  object is unchanged and no descriptor is built.
\<close>

theorem moveSprintIssues_mutates_caller_options:
  "(deletable h a ''sprintId'' \<longrightarrow>
      (\<exists>h'. strippedOf h a h' \<and>
         (moveSprintIssues this (Ref a) cb h = Inl (TypeError, h') \<or>
          (\<exists>d. moveSprintIssues this (Ref a) cb h = Inr (makeRequest this d cb h') \<and>
               body d = Some (Ref a))))) \<and>
   (\<not> deletable h a' ''sprintId'' \<longrightarrow>
      moveSprintIssues this (Ref a') cb h = Inl (TypeError, h))"
proof (intro conjI impI)
  assume l: "deletable h a ''sprintId''"
  show "\<exists>h'. strippedOf h a h' \<and>
         (moveSprintIssues this (Ref a) cb h = Inl (TypeError, h') \<or>
          (\<exists>d. moveSprintIssues this (Ref a) cb h = Inr (makeRequest this d cb h') \<and>
               body d = Some (Ref a)))"
  proof (cases "textOf h (propOf h a ''sprintId'')")
    case None
    from moveSprintIssues_obj_throws[OF this l] strippedOf_delete show ?thesis by blast
  next
    case (Some t)
    show ?thesis
      unfolding moveSprintIssues_obj[OF Some l]
      by (intro exI conjI disjI2, rule strippedOf_delete, rule refl) simp
  qed
next
  assume "\<not> deletable h a' ''sprintId''"
  then show "moveSprintIssues this (Ref a') cb h = Inl (TypeError, h)"
    by (rule moveSprintIssues_obj_locked)
qed

theorem moveSprintIssues_mutates_caller_options_witness:
  "deletable exampleStore 4 ''sprintId'' \<and>
   (\<exists>h'. strippedOf exampleStore 4 h' \<and>
      propOf h' 4 ''rankBeforeIssue'' = Str ''ISS-9'' \<and> h' 4 ''sprintId'' = None \<and>
      propOf exampleStore 4 ''sprintId'' = Str ''7'' \<and>
      (\<exists>d. moveSprintIssues exampleClient (Ref 4) None exampleStore = Inr (d, None, h') \<and>
            body d = Some (Ref 4))) \<and>
   \<not> deletable exampleStore 10 ''sprintId'' \<and>
   moveSprintIssues exampleClient (Ref 10) None exampleStore = Inl (TypeError, exampleStore)"
proof -
  have l: "\<not> deletable exampleStore 10 ''sprintId''"
    by (simp add: example_defs)
  note inst = moveSprintIssues_mutates_caller_options
    [of exampleStore 4 exampleClient None 10]
  from inst example_deletable_4
  obtain h' where s: "strippedOf exampleStore 4 h'"
    and r: "moveSprintIssues exampleClient (Ref 4) None exampleStore = Inl (TypeError, h') \<or>
       (\<exists>d. moveSprintIssues exampleClient (Ref 4) None exampleStore =
              Inr (makeRequest exampleClient d None h') \<and> body d = Some (Ref 4))"
    by blast
  from r have "\<exists>d. moveSprintIssues exampleClient (Ref 4) None exampleStore = Inr (d, None, h') \<and>
            body d = Some (Ref 4)"
    by (auto simp: example_moveSprintIssues) (simp add: exampleClient_def)
  moreover from s have "propOf h' 4 ''rankBeforeIssue'' = Str ''ISS-9''"
    "h' 4 ''sprintId'' = None"
    by (simp_all add: strippedOf_def exampleStore_def propOf_def plain_def)
  moreover have "propOf exampleStore 4 ''sprintId'' = Str ''7''"
    by (simp add: exampleStore_def propOf_def plain_def)
  moreover from inst l
  have "moveSprintIssues exampleClient (Ref 10) None exampleStore = Inl (TypeError, exampleStore)"
    by blast
  ultimately show ?thesis using s l example_deletable_4 by blast
qed

section \<open>URL and method\<close>

lemma digitChar_no_brace:
  "n < 10 \<Longrightarrow> digitChar n \<noteq> CHR ''{'' \<and> digitChar n \<noteq> CHR ''}'' "
proof -
  assume "n < 10"
  then have "n \<in> {0,1,2,3,4,5,6,7,8,9}" by auto
  then show ?thesis by (auto simp: digitChar_def)
qed

lemma showNat_placeholderFree: "placeholderFree (showNat n)"
proof (induction n rule: showNat.induct)
  case (1 n)
  show ?case
  proof (cases "n < 10")
    case True
    then show ?thesis
      using digitChar_no_brace[of n] by (subst showNat.simps) (auto simp: placeholderFree_def)
  next
    case False
    have "n mod 10 < 10" by simp
    with False "1.IH" digitChar_no_brace[of "n mod 10"] show ?thesis
      by (subst showNat.simps) (auto simp: placeholderFree_def)
  qed
qed

lemma showInt_placeholderFree: "placeholderFree (showInt i)"
  using showNat_placeholderFree[of "nat i"] showNat_placeholderFree[of "nat (- i)"]
  by (simp add: showInt_def placeholderFree_def)

text \<open>The numeral that is read as \<open>i\<close> is the text printed for \<open>i\<close>, and no other.\<close>

lemma digitValue_digitChar: "digitValue c = Some d \<Longrightarrow> d < 10 \<and> digitChar d = c"
  by (auto simp: digitValue_def digitChar_def split: if_splits)

lemma showNat_snoc:
  assumes "0 < acc" and "d < 10"
  shows "showNat (10 * acc + d) = showNat acc @ [digitChar d]"
proof -
  from assms have "\<not> 10 * acc + d < 10" by simp
  moreover from assms have "(10 * acc + d) div 10 = acc" "(10 * acc + d) mod 10 = d" by simp_all
  ultimately show ?thesis by (subst showNat.simps) simp
qed

lemma digitsValue_showNat:
  "0 < acc \<Longrightarrow> digitsValue acc s = Some n \<Longrightarrow> showNat n = showNat acc @ s"
proof (induction s arbitrary: acc)
  case Nil
  then show ?case by simp
next
  case (Cons c cs)
  from Cons.prems(2) obtain d where d: "digitValue c = Some d"
    and r: "digitsValue (10 * acc + d) cs = Some n"
    by (auto split: option.splits)
  from digitValue_digitChar[OF d] have dd: "d < 10" "digitChar d = c" by simp_all
  from Cons.prems(1) have "0 < 10 * acc + d" by simp
  from Cons.IH[OF this r] showNat_snoc[OF Cons.prems(1) dd(1)] dd(2)
  show ?case by simp
qed

lemma natNumeral_showNat:
  assumes "natNumeral s = Some n"
  shows "showNat n = s"
proof (cases s)
  case Nil
  with assms show ?thesis by (simp add: natNumeral_def)
next
  case (Cons c cs)
  with assms have v: "digitsValue 0 (c # cs) = Some n" and z: "c = CHR ''0'' \<longrightarrow> cs = []"
    by (auto simp: natNumeral_def split: if_splits)
  from v obtain d where d: "digitValue c = Some d" and r: "digitsValue d cs = Some n"
    by (auto split: option.splits)
  from digitValue_digitChar[OF d] have dd: "d < 10" "digitChar d = c" by simp_all
  show ?thesis
  proof (cases "d = 0")
    case True
    with dd have "c = CHR ''0''" by (simp add: digitChar_def)
    with z have "cs = []" by simp
    with r True Cons \<open>c = CHR ''0''\<close> show ?thesis
      by (simp add: showNat.simps digitChar_def)
  next
    case False
    then have "0 < d" by simp
    from digitsValue_showNat[OF this r] dd Cons show ?thesis
      by (simp add: showNat.simps[of d])
  qed
qed

lemma decimalValue_showInt:
  assumes "decimalValue t = Some i"
  shows "showInt i = t"
proof (cases t)
  case Nil
  with assms show ?thesis by (simp add: decimalValue_def)
next
  case (Cons c cs)
  show ?thesis
  proof (cases "c = CHR ''-''")
    case True
    with assms Cons obtain n where n: "natNumeral cs = Some n" "n \<noteq> 0" "i = - int n"
      by (auto simp: decimalValue_def split: option.splits if_splits)
    from natNumeral_showNat[OF n(1)] n(2,3) Cons True show ?thesis
      by (simp add: showInt_def)
  next
    case False
    with assms Cons obtain n where n: "natNumeral t = Some n" "i = int n"
      by (auto simp: decimalValue_def)
    from natNumeral_showNat[OF n(1)] n(2) show ?thesis
      by (simp add: showInt_def)
  qed
qed

text \<open>Every integer has such a numeral.\<close>

lemma digitsValue_snoc:
  "digitsValue acc (xs @ [c]) =
     (case digitsValue acc xs of None \<Rightarrow> None
      | Some v \<Rightarrow> (case digitValue c of None \<Rightarrow> None | Some d \<Rightarrow> Some (10 * v + d)))"
  by (induction xs arbitrary: acc) (auto split: option.splits)

lemma digitValue_of_digitChar: "d < 10 \<Longrightarrow> digitValue (digitChar d) = Some d"
proof -
  assume "d < 10"
  then have "d \<in> {0,1,2,3,4,5,6,7,8,9}" by auto
  then show ?thesis by (auto simp: digitValue_def digitChar_def)
qed

lemma digitsValue_of_showNat: "digitsValue 0 (showNat n) = Some n"
proof (induction n rule: showNat.induct)
  case (1 n)
  show ?case
  proof (cases "n < 10")
    case True
    then show ?thesis
      by (subst showNat.simps) (simp add: digitValue_of_digitChar)
  next
    case False
    have "n mod 10 < 10" by simp
    from digitValue_of_digitChar[OF this] False "1.IH" show ?thesis
      by (subst showNat.simps) (simp add: digitsValue_snoc)
  qed
qed

lemma showNat_nonempty: "showNat n \<noteq> []"
  by (subst showNat.simps) simp

lemma hd_showNat: "hd (showNat n) = CHR ''0'' \<Longrightarrow> n = 0"
proof (induction n rule: showNat.induct)
  case (1 n)
  show ?case
  proof (cases "n < 10")
    case True
    then have "n \<in> {0,1,2,3,4,5,6,7,8,9}" by auto
    with "1.prems" show ?thesis
      by (subst (asm) showNat.simps) (auto simp: digitChar_def)
  next
    case False
    with "1.prems" have "hd (showNat (n div 10)) = CHR ''0''"
      by (subst (asm) showNat.simps) (simp add: showNat_nonempty)
    from "1.IH"[OF False this] False show ?thesis by simp
  qed
qed

lemma natNumeral_of_showNat: "natNumeral (showNat n) = Some n"
proof -
  have "hd (showNat n) = CHR ''0'' \<Longrightarrow> showNat n = ''0''"
  proof -
    assume "hd (showNat n) = CHR ''0''"
    then have "n = 0" by (rule hd_showNat)
    then show ?thesis by (simp add: showNat.simps digitChar_def)
  qed
  then show ?thesis
    by (auto simp: natNumeral_def showNat_nonempty digitsValue_of_showNat)
qed

lemma hd_showNat_not_minus: "hd (showNat n) \<noteq> CHR ''-''"
proof (induction n rule: showNat.induct)
  case (1 n)
  show ?case
  proof (cases "n < 10")
    case True
    then have "n \<in> {0,1,2,3,4,5,6,7,8,9}" by auto
    then show ?thesis
      by (subst showNat.simps) (auto simp: digitChar_def)
  next
    case False
    with "1.IH" show ?thesis
      by (subst showNat.simps) (simp add: showNat_nonempty)
  qed
qed

lemma decimalValue_of_showInt: "decimalValue (showInt i) = Some i"
proof (cases "i < 0")
  case True
  then have "nat (- i) \<noteq> 0" by simp
  with True show ?thesis
    by (simp add: showInt_def decimalValue_def natNumeral_of_showNat)
next
  case False
  obtain c cs where s: "showNat (nat i) = c # cs"
    using showNat_nonempty[of "nat i"] by (cases "showNat (nat i)") auto
  with hd_showNat_not_minus[of "nat i"] have "c \<noteq> CHR ''-''" by simp
  with False s natNumeral_of_showNat[of "nat i"] show ?thesis
    by (simp add: showInt_def decimalValue_def)
qed

lemma numeric_identifier_has_text: "\<exists>t. isIdentifierText (Num n) t"
  using decimalValue_of_showInt[of "intOf n"] by (auto simp: isIdentifierText_def)

lemma isIdentifierText_textOf: "isIdentifierText v t \<Longrightarrow> textOf h v = Some t"
  by (cases v) (simp_all add: isIdentifierText_def textOf_def decimalValue_showInt)

lemma numeric_text_placeholderFree: "isIdentifierText (Num n) t \<Longrightarrow> placeholderFree t"
  using showInt_placeholderFree[of "intOf n"]
  by (auto simp: isIdentifierText_def dest: decimalValue_showInt)

text \<open>
  Claim C2. For every operation and every options object that supplies an identifier (a
  string or a number), the url of the descriptor is \<^verbatim>\<open>buildAgileURL\<close> applied to the
  relative path of the operation table with the identifier's verbatim text in the place of
  the identifier (\<^verbatim>\<open>/sprint\<close> for create, \<^verbatim>\<open>/sprint/{id}\<close> for get, both updates and
  delete, \<^verbatim>\<open>/sprint/{id}/issue\<close> for listing and moving issues, \<^verbatim>\<open>/sprint/{id}/swap\<close> for
  swap), and the method is the one the table assigns. The url has no placeholder left:
  where the resolver puts no brace into its result, the url has a brace only if the
  identifier's own text has one, and the text of a numeric identifier never has. The
  identifier is read from the options object by get, delete, list and move, and from the
  payload object that \<^verbatim>\<open>parseOptions\<close> returned by the updates and swap; the operations
  that delete it need it to be deletable, since otherwise they throw and build no
  descriptor.
\<close>

theorem url_and_method_follow_operation_table:
  "(parseOptions this opts0 Undefined h = Inr (Ref r0, g0) \<longrightarrow>
      (\<exists>d h'. AgileSprintClient this CreateSprint opts0 cb h = Inr (makeRequest this d cb h') \<and>
         uri d = buildAgileURL this (specPath CreateSprint []) \<and>
         method d = specMethod CreateSprint \<and>
         ((\<forall>p. placeholderFree p \<longrightarrow> placeholderFree (buildAgileURL this p)) \<longrightarrow>
            placeholderFree (uri d)))) \<and>
   (m1 \<in> {GetSprint, DeleteSprint, GetSprintIssues, MoveSprintIssues} \<and>
    isIdentifierText (propOf h a ''sprintId'') t1 \<and>
    (m1 = MoveSprintIssues \<longrightarrow> deletable h a ''sprintId'') \<longrightarrow>
      (\<exists>d h'. AgileSprintClient this m1 (Ref a) cb h = Inr (makeRequest this d cb h') \<and>
         uri d = buildAgileURL this (specPath m1 t1) \<and> method d = specMethod m1 \<and>
         ((\<forall>p. placeholderFree p \<longrightarrow> placeholderFree (buildAgileURL this p)) \<and>
          placeholderFree t1 \<longrightarrow> placeholderFree (uri d)))) \<and>
   (m2 \<in> {UpdateSprint, PartiallyUpdateSprint, SwapSprint} \<and>
    parseOptions this opts2 (parseName m2) h = Inr (Ref r2, g2) \<and>
    propOf g2 r2 ''body'' = Ref b2 \<and>
    isIdentifierText (propOf g2 b2 ''sprintId'') t2 \<and> deletable g2 b2 ''sprintId'' \<longrightarrow>
      (\<exists>d h'. AgileSprintClient this m2 opts2 cb h = Inr (makeRequest this d cb h') \<and>
         uri d = buildAgileURL this (specPath m2 t2) \<and> method d = specMethod m2 \<and>
         ((\<forall>p. placeholderFree p \<longrightarrow> placeholderFree (buildAgileURL this p)) \<and>
          placeholderFree t2 \<longrightarrow> placeholderFree (uri d)))) \<and>
   (isIdentifierText (Num n) t \<longrightarrow> placeholderFree t)"
proof (intro conjI impI)
  assume "parseOptions this opts0 Undefined h = Inr (Ref r0, g0)"
  from create_table[OF this, of cb]
  obtain d h' where c: "AgileSprintClient this CreateSprint opts0 cb h =
      Inr (makeRequest this d cb h')"
    "uri d = buildAgileURL this (specPath CreateSprint [])"
    "method d = specMethod CreateSprint"
    by blast
  have "placeholderFree (specPath CreateSprint [])"
    by (simp add: specPath_def placeholderFree_def)
  with c show "\<exists>d h'. AgileSprintClient this CreateSprint opts0 cb h =
         Inr (makeRequest this d cb h') \<and>
         uri d = buildAgileURL this (specPath CreateSprint []) \<and>
         method d = specMethod CreateSprint \<and>
         ((\<forall>p. placeholderFree p \<longrightarrow> placeholderFree (buildAgileURL this p)) \<longrightarrow>
            placeholderFree (uri d))"
    by auto
next
  assume a: "m1 \<in> {GetSprint, DeleteSprint, GetSprintIssues, MoveSprintIssues} \<and>
    isIdentifierText (propOf h a ''sprintId'') t1 \<and>
    (m1 = MoveSprintIssues \<longrightarrow> deletable h a ''sprintId'')"
  then have "m1 \<in> {GetSprint, DeleteSprint, GetSprintIssues, MoveSprintIssues}"
    and "textOf h (propOf h a ''sprintId'') = Some t1"
    and "m1 = MoveSprintIssues \<longrightarrow> deletable h a ''sprintId''"
    by (simp_all add: isIdentifierText_textOf)
  from reads_table[OF this, of this cb]
  obtain d h' where c: "AgileSprintClient this m1 (Ref a) cb h = Inr (makeRequest this d cb h')"
    "uri d = buildAgileURL this (specPath m1 t1)" "method d = specMethod m1"
    by blast
  then show "\<exists>d h'. AgileSprintClient this m1 (Ref a) cb h = Inr (makeRequest this d cb h') \<and>
         uri d = buildAgileURL this (specPath m1 t1) \<and> method d = specMethod m1 \<and>
         ((\<forall>p. placeholderFree p \<longrightarrow> placeholderFree (buildAgileURL this p)) \<and>
          placeholderFree t1 \<longrightarrow> placeholderFree (uri d))"
    using specPath_placeholderFree[of t1 m1] by auto
next
  assume a: "m2 \<in> {UpdateSprint, PartiallyUpdateSprint, SwapSprint} \<and>
    parseOptions this opts2 (parseName m2) h = Inr (Ref r2, g2) \<and>
    propOf g2 r2 ''body'' = Ref b2 \<and>
    isIdentifierText (propOf g2 b2 ''sprintId'') t2 \<and> deletable g2 b2 ''sprintId''"
  then have "m2 \<in> {UpdateSprint, PartiallyUpdateSprint, SwapSprint}"
    and "parseOptions this opts2 (parseName m2) h = Inr (Ref r2, g2)"
    and "propOf g2 r2 ''body'' = Ref b2"
    and "textOf g2 (propOf g2 b2 ''sprintId'') = Some t2"
    and "deletable g2 b2 ''sprintId''"
    by (simp_all add: isIdentifierText_textOf)
  from payload_table[OF this, of cb]
  obtain d h' where c: "AgileSprintClient this m2 opts2 cb h = Inr (makeRequest this d cb h')"
    "uri d = buildAgileURL this (specPath m2 t2)" "method d = specMethod m2"
    by blast
  then show "\<exists>d h'. AgileSprintClient this m2 opts2 cb h = Inr (makeRequest this d cb h') \<and>
         uri d = buildAgileURL this (specPath m2 t2) \<and> method d = specMethod m2 \<and>
         ((\<forall>p. placeholderFree p \<longrightarrow> placeholderFree (buildAgileURL this p)) \<and>
          placeholderFree t2 \<longrightarrow> placeholderFree (uri d))"
    using specPath_placeholderFree[of t2 m2] by auto
next
  assume "isIdentifierText (Num n) t"
  then show "placeholderFree t" by (rule numeric_text_placeholderFree)
qed

lemma example_resolver_adds_no_brace:
  "\<forall>p. placeholderFree p \<longrightarrow> placeholderFree (buildAgileURL exampleClient p)"
  by (simp add: exampleClient_def placeholderFree_def)

lemma example_identifier_4: "isIdentifierText (propOf exampleStore 4 ''sprintId'') ''7''"
  by (simp add: isIdentifierText_def exampleStore_def propOf_def plain_def)

lemma example_identifier_331: "isIdentifierText (propOf parsedStore 3 ''sprintId'') ''331''"
  by (simp add: example_parsed_id isIdentifierText_def decimalValue_def natNumeral_def
        digitValue_def intOf_safeInt)

lemma example_identifier_42: "isIdentifierText (Num (safeInt 42)) ''42''"
  by (simp add: isIdentifierText_def decimalValue_def natNumeral_def digitValue_def
        intOf_safeInt)

theorem url_and_method_witness:
  "parseOptions exampleClient (Ref 2) Undefined exampleStore = Inr (Ref 0, parsedStore) \<and>
   (\<exists>d h'. AgileSprintClient exampleClient CreateSprint (Ref 2) None exampleStore =
              Inr (makeRequest exampleClient d None h') \<and>
      uri d = ''https://jira.example.com/rest/agile/1.0/sprint'' \<and> method d = ''POST'' \<and>
      placeholderFree (uri d)) \<and>
   MoveSprintIssues \<in> {GetSprint, DeleteSprint, GetSprintIssues, MoveSprintIssues} \<and>
   isIdentifierText (propOf exampleStore 4 ''sprintId'') ''7'' \<and>
   deletable exampleStore 4 ''sprintId'' \<and>
   (\<exists>d h'. AgileSprintClient exampleClient MoveSprintIssues (Ref 4) None exampleStore =
              Inr (makeRequest exampleClient d None h') \<and>
      uri d = ''https://jira.example.com/rest/agile/1.0/sprint/7/issue'' \<and>
      method d = ''POST'' \<and> placeholderFree (uri d)) \<and>
   UpdateSprint \<in> {UpdateSprint, PartiallyUpdateSprint, SwapSprint} \<and>
   parseOptions exampleClient (Ref 2) (parseName UpdateSprint) exampleStore =
     Inr (Ref 0, parsedStore) \<and>
   propOf parsedStore 0 ''body'' = Ref 3 \<and>
   isIdentifierText (propOf parsedStore 3 ''sprintId'') ''331'' \<and>
   deletable parsedStore 3 ''sprintId'' \<and>
   (\<exists>d h'. AgileSprintClient exampleClient UpdateSprint (Ref 2) None exampleStore =
              Inr (makeRequest exampleClient d None h') \<and>
      uri d = ''https://jira.example.com/rest/agile/1.0/sprint/331'' \<and> method d = ''PUT'' \<and>
      placeholderFree (uri d)) \<and>
   isIdentifierText (Num (safeInt 42)) ''42'' \<and> placeholderFree ''42''"
proof -
  have p: "placeholderFree ''7''" "placeholderFree ''331''"
    by (simp_all add: placeholderFree_def)
  have u: "buildAgileURL exampleClient = (\<lambda>path. ''https://jira.example.com/rest/agile/1.0'' @ path)"
    by (simp add: exampleClient_def)
  from url_and_method_follow_operation_table [where this = exampleClient and h = exampleStore
      and cb = None and ?opts0.0 = "Ref 2" and ?r0.0 = 0 and ?g0.0 = parsedStore
      and ?m1.0 = MoveSprintIssues and a = 4 and ?t1.0 = "''7''"
      and ?m2.0 = UpdateSprint and ?opts2.0 = "Ref 2" and ?r2.0 = 0 and ?g2.0 = parsedStore
      and ?b2.0 = 3 and ?t2.0 = "''331''" and n = "safeInt 42" and t = "''42''"]
    p example_parseOptions example_parsed_body example_parsed_deletable example_deletable_4
    example_identifier_4 example_identifier_331 example_identifier_42
    example_resolver_adds_no_brace
  show ?thesis
    by (simp add: specPath_def specMethod_def) (simp add: u)
qed

section \<open>The callback and the single transport call\<close>

lemma forwarded_or_thrown:
  "(\<exists>e h'. AgileSprintClient this m opts cb h = Inl (e, h')) \<or>
   (\<exists>d h'. AgileSprintClient this m opts cb h = Inr (makeRequest this d cb h'))"
proof (cases "AgileSprintClient this m opts cb h")
  case (Inl eh)
  then show ?thesis by (cases eh) simp
next
  case (Inr r)
  then obtain d h' where "r = makeRequest this d cb h'"
    unfolding AgileSprintClient_def op_defs
    by (cases m; simp; elim bindP_Inr_elim) fastforce+
  with Inr show ?thesis by blast
qed

text \<open>
  Claim C6. Every operation takes an optional callback and passes it on unchanged, next to
  the one descriptor it built, in one call \<^verbatim>\<open>makeRequest(options, callback)\<close>, whose
  return value it returns. Whatever the inputs, an operation either throws while it builds
  the descriptor or returns what that call returns (first part). It does reach the
  transport, with the url and method of its own row of the operation table and with the
  caller's options or payload in the descriptor, whenever the options are an object whose
  identifier can be put into the path and, where the operation deletes it, can be deleted
  (second to fourth part). And where \<^verbatim>\<open>makeRequest\<close> is a transport that keeps the
  contract of the specification, what the operation returns is that transport's answer to
  the call: the deferred is settled with the outcome of the call and the callback, if there
  is one, is notified once, with the outcome the deferred has (last part).
\<close>

theorem callback_forwarded_in_one_call:
  fixes this :: "('cb, ('cb, 'o) dispatched) jiraClient"
  shows
  "((\<exists>e h'. AgileSprintClient this m opts cb h = Inl (e, h')) \<or>
    (\<exists>d h'. AgileSprintClient this m opts cb h = Inr (makeRequest this d cb h'))) \<and>
   (m1 \<in> {GetSprint, DeleteSprint, GetSprintIssues, MoveSprintIssues} \<and>
    textOf h (propOf h a ''sprintId'') = Some t1 \<and>
    (m1 = MoveSprintIssues \<longrightarrow> deletable h a ''sprintId'') \<longrightarrow>
      (\<exists>d h'. AgileSprintClient this m1 (Ref a) cb h = Inr (makeRequest this d cb h') \<and>
         uri d = buildAgileURL this (specPath m1 t1) \<and> method d = specMethod m1 \<and>
         suppliedOptions d = Ref a)) \<and>
   (m2 \<in> {UpdateSprint, PartiallyUpdateSprint, SwapSprint} \<and>
    parseOptions this opts2 (parseName m2) h = Inr (Ref r2, g2) \<and>
    propOf g2 r2 ''body'' = Ref b2 \<and>
    textOf g2 (propOf g2 b2 ''sprintId'') = Some t2 \<and> deletable g2 b2 ''sprintId'' \<longrightarrow>
      (\<exists>d h'. AgileSprintClient this m2 opts2 cb h = Inr (makeRequest this d cb h') \<and>
         uri d = buildAgileURL this (specPath m2 t2) \<and> method d = specMethod m2 \<and>
         body d = Some (Ref b2))) \<and>
   (parseOptions this opts0 Undefined h = Inr (Ref r0, g0) \<longrightarrow>
      (\<exists>d h'. AgileSprintClient this CreateSprint opts0 cb h = Inr (makeRequest this d cb h') \<and>
         uri d = buildAgileURL this (specPath CreateSprint []) \<and>
         method d = specMethod CreateSprint \<and> body d = Some (propOf g0 r0 ''body''))) \<and>
   (makeRequest this = transportExecute perform \<and>
    AgileSprintClient this m opts cb h = Inr r \<longrightarrow>
      (\<exists>d h'. r = transportExecute perform d cb h' \<and> deferred r = perform d h') \<and>
      notified r = (case cb of None \<Rightarrow> [] | Some c \<Rightarrow> [(c, deferred r)]))"
proof (intro conjI impI)
  show "(\<exists>e h'. AgileSprintClient this m opts cb h = Inl (e, h')) \<or>
    (\<exists>d h'. AgileSprintClient this m opts cb h = Inr (makeRequest this d cb h'))"
    by (rule forwarded_or_thrown)
next
  assume "m1 \<in> {GetSprint, DeleteSprint, GetSprintIssues, MoveSprintIssues} \<and>
    textOf h (propOf h a ''sprintId'') = Some t1 \<and>
    (m1 = MoveSprintIssues \<longrightarrow> deletable h a ''sprintId'')"
  then show "\<exists>d h'. AgileSprintClient this m1 (Ref a) cb h = Inr (makeRequest this d cb h') \<and>
         uri d = buildAgileURL this (specPath m1 t1) \<and> method d = specMethod m1 \<and>
         suppliedOptions d = Ref a"
    by (intro reads_table) simp_all
next
  assume "m2 \<in> {UpdateSprint, PartiallyUpdateSprint, SwapSprint} \<and>
    parseOptions this opts2 (parseName m2) h = Inr (Ref r2, g2) \<and>
    propOf g2 r2 ''body'' = Ref b2 \<and>
    textOf g2 (propOf g2 b2 ''sprintId'') = Some t2 \<and> deletable g2 b2 ''sprintId''"
  then have "m2 \<in> {UpdateSprint, PartiallyUpdateSprint, SwapSprint}"
    and "parseOptions this opts2 (parseName m2) h = Inr (Ref r2, g2)"
    and "propOf g2 r2 ''body'' = Ref b2"
    and "textOf g2 (propOf g2 b2 ''sprintId'') = Some t2"
    and "deletable g2 b2 ''sprintId''"
    by simp_all
  from payload_table[OF this]
  show "\<exists>d h'. AgileSprintClient this m2 opts2 cb h = Inr (makeRequest this d cb h') \<and>
         uri d = buildAgileURL this (specPath m2 t2) \<and> method d = specMethod m2 \<and>
         body d = Some (Ref b2)"
    by blast
next
  assume "parseOptions this opts0 Undefined h = Inr (Ref r0, g0)"
  then show "\<exists>d h'. AgileSprintClient this CreateSprint opts0 cb h =
         Inr (makeRequest this d cb h') \<and>
         uri d = buildAgileURL this (specPath CreateSprint []) \<and>
         method d = specMethod CreateSprint \<and> body d = Some (propOf g0 r0 ''body'')"
    by (rule create_table)
next
  assume a: "makeRequest this = transportExecute perform \<and>
    AgileSprintClient this m opts cb h = Inr r"
  with forwarded_or_thrown[of this m opts cb h]
  obtain d h' where r: "r = transportExecute perform d cb h'" by auto
  then show "\<exists>d h'. r = transportExecute perform d cb h' \<and> deferred r = perform d h'"
    by (auto simp: transportExecute_def Let_def)
  from r show "notified r = (case cb of None \<Rightarrow> [] | Some c \<Rightarrow> [(c, deferred r)])"
    by (simp add: transportExecute_def Let_def split: option.splits)
qed

lemma example_contract_getSprint:
  "AgileSprintClient contractClient GetSprint (Ref 1) (Some ''done'') exampleStore =
     Inr \<lparr> deferred =
             \<lparr> uri = ''https://jira.example.com/rest/agile/1.0/sprint/42'',
               method = ''GET'', followAllRedirects = True, json = True,
               suppliedOptions = Ref 1,
               qs = Some [''filter'' \<mapsto> Undefined, ''startAt'' \<mapsto> Undefined,
                          ''maxResults'' \<mapsto> Num (safeInt 50)],
               body = None \<rparr>,
           notified =
             [(''done'',
               \<lparr> uri = ''https://jira.example.com/rest/agile/1.0/sprint/42'',
                 method = ''GET'', followAllRedirects = True, json = True,
                 suppliedOptions = Ref 1,
                 qs = Some [''filter'' \<mapsto> Undefined, ''startAt'' \<mapsto> Undefined,
                            ''maxResults'' \<mapsto> Num (safeInt 50)],
                 body = None \<rparr>)] \<rparr>"
  by (simp add: AgileSprintClient_def getSprint_def contractClient_def transportExecute_def
        Let_def example_defs)

lemma example_contract_parseOptions:
  "parseOptions contractClient (Ref 2) name exampleStore = Inr (Ref 0, parsedStore)"
  by (simp add: contractClient_def example_parseOptions)

theorem callback_forwarded_in_one_call_witness:
  "GetSprint \<in> {GetSprint, DeleteSprint, GetSprintIssues, MoveSprintIssues} \<and>
   textOf exampleStore (propOf exampleStore 1 ''sprintId'') = Some ''42'' \<and>
   (\<exists>d h'. AgileSprintClient contractClient GetSprint (Ref 1) (Some ''done'') exampleStore =
              Inr (makeRequest contractClient d (Some ''done'') h') \<and>
      uri d = ''https://jira.example.com/rest/agile/1.0/sprint/42'' \<and>
      method d = ''GET'' \<and> suppliedOptions d = Ref 1) \<and>
   UpdateSprint \<in> {UpdateSprint, PartiallyUpdateSprint, SwapSprint} \<and>
   parseOptions contractClient (Ref 2) (parseName UpdateSprint) exampleStore =
     Inr (Ref 0, parsedStore) \<and>
   propOf parsedStore 0 ''body'' = Ref 3 \<and>
   textOf parsedStore (propOf parsedStore 3 ''sprintId'') = Some ''331'' \<and>
   deletable parsedStore 3 ''sprintId'' \<and>
   (\<exists>d h'. AgileSprintClient contractClient UpdateSprint (Ref 2) (Some ''done'') exampleStore =
              Inr (makeRequest contractClient d (Some ''done'') h') \<and>
      uri d = ''https://jira.example.com/rest/agile/1.0/sprint/331'' \<and>
      method d = ''PUT'' \<and> body d = Some (Ref 3)) \<and>
   (\<exists>d h'. AgileSprintClient contractClient CreateSprint (Ref 2) (Some ''done'') exampleStore =
              Inr (makeRequest contractClient d (Some ''done'') h') \<and>
      uri d = ''https://jira.example.com/rest/agile/1.0/sprint'' \<and>
      method d = ''POST'' \<and> body d = Some (Ref 3)) \<and>
   makeRequest contractClient = transportExecute (\<lambda>d h. d) \<and>
   (\<exists>r. AgileSprintClient contractClient GetSprint (Ref 1) (Some ''done'') exampleStore = Inr r \<and>
      uri (deferred r) = ''https://jira.example.com/rest/agile/1.0/sprint/42'' \<and>
      notified r = [(''done'', deferred r)])"
proof -
  have t: "textOf exampleStore (propOf exampleStore 1 ''sprintId'') = Some ''42''"
    by (simp add: example_defs)
  have c: "makeRequest contractClient = transportExecute (\<lambda>d h. d)"
    by (simp add: contractClient_def)
  have u: "buildAgileURL contractClient =
      (\<lambda>path. ''https://jira.example.com/rest/agile/1.0'' @ path)"
    by (simp add: contractClient_def exampleClient_def)
  from callback_forwarded_in_one_call [where this = contractClient and h = exampleStore
      and cb = "Some ''done''" and m = GetSprint and opts = "Ref 1"
      and ?m1.0 = GetSprint and a = 1 and ?t1.0 = "''42''"
      and ?m2.0 = UpdateSprint and ?opts2.0 = "Ref 2" and ?r2.0 = 0 and ?g2.0 = parsedStore
      and ?b2.0 = 3 and ?t2.0 = "''331''"
      and ?opts0.0 = "Ref 2" and ?r0.0 = 0 and ?g0.0 = parsedStore
      and perform = "\<lambda>d h. d"
      and r = "\<lparr> deferred =
             \<lparr> uri = ''https://jira.example.com/rest/agile/1.0/sprint/42'',
               method = ''GET'', followAllRedirects = True, json = True,
               suppliedOptions = Ref 1,
               qs = Some [''filter'' \<mapsto> Undefined, ''startAt'' \<mapsto> Undefined,
                          ''maxResults'' \<mapsto> Num (safeInt 50)],
               body = None \<rparr>,
           notified =
             [(''done'',
               \<lparr> uri = ''https://jira.example.com/rest/agile/1.0/sprint/42'',
                 method = ''GET'', followAllRedirects = True, json = True,
                 suppliedOptions = Ref 1,
                 qs = Some [''filter'' \<mapsto> Undefined, ''startAt'' \<mapsto> Undefined,
                            ''maxResults'' \<mapsto> Num (safeInt 50)],
                 body = None \<rparr>)] \<rparr>"]
    t c example_contract_getSprint example_contract_parseOptions example_parsed_body
    example_parsed_text example_parsed_deletable
  show ?thesis
    by (simp add: specPath_def specMethod_def u)
qed

end
